theory Spec2Isabelle
  imports Complex_Main
begin

section \<open>The grid module of orbkit (src/orbkit/grid.py)\<close>

text \<open>
  The module keeps one process-wide grid in Python globals and offers operations
  that read and overwrite it. The embedding below passes that state explicitly.

  Floating-point numbers are not idealised as reals. Every operation the module
  applies to a double (the arithmetic, the comparisons, the conversions from and
  to integers, the parsing of a token) is a field of the record \<open>flops\<close>, and
  each embedded function takes such a record as its first argument. A theorem
  stated for an arbitrary record therefore holds for IEEE doubles with their
  rounding, infinities and NaN, whatever those operations return.

  Integers are as the code has them: Python integers are unbounded, numpy's are
  64 bits and wrap, those of the inlined C code are 32 bits.

  Embedded are \<open>grid_init\<close>, \<open>reset_grid\<close>, \<open>grid2vector\<close>, \<open>vector2grid\<close>,
  \<open>random_grid\<close>, \<open>read\<close> and \<open>center_grid\<close>. \<open>get_grid\<close>, which formats a
  report, and \<open>sph2cart_vector\<close> are not needed below.
\<close>

subsection \<open>Errors\<close>

datatype error =
    ZeroDivisionError           \<comment> \<open>Python float division by \<open>0.0\<close>\<close>
  | OverflowError               \<comment> \<open>\<open>float\<close> of an integer beyond the doubles\<close>
  | ValueError                  \<comment> \<open>raised by numpy: negative or oversized dimension, ragged rows, unparsable token\<close>
  | IndexError                  \<comment> \<open>index out of range\<close>
  | CIntOverflow                \<comment> \<open>a loop index of the inlined C code overflows: the call does not return\<close>
  | IOError_NoFile              \<comment> \<open>\<open>open\<close> fails\<close>
  | IOError_Inconsistency "string list"
                                \<comment> \<open>\<open>IOError('Inconsistency in Grid File in "%s"' % i)\<close>, with the offending line\<close>

subsection \<open>Floating-point operations, and numpy on wide integers\<close>

record 'a flops =
  f_lit :: "rat \<Rightarrow> 'a"             \<comment> \<open>the double a literal such as \<open>0.5\<close> denotes; \<open>numpy.zeros\<close> fills with \<open>f_lit 0\<close>\<close>
  f_of_int :: "int \<Rightarrow> 'a"          \<comment> \<open>\<open>float(n)\<close>, and numpy's promotion of an integer operand\<close>
  f_add :: "'a \<Rightarrow> 'a \<Rightarrow> 'a"
  f_sub :: "'a \<Rightarrow> 'a \<Rightarrow> 'a"
  f_mul :: "'a \<Rightarrow> 'a \<Rightarrow> 'a"
  f_div :: "'a \<Rightarrow> 'a \<Rightarrow> 'a"       \<comment> \<open>IEEE division, total: a zero divisor gives an infinity or NaN\<close>
  f_abs :: "'a \<Rightarrow> 'a"
  f_round :: "'a \<Rightarrow> 'a"            \<comment> \<open>\<open>numpy.round\<close>\<close>
  f_eq :: "'a \<Rightarrow> 'a \<Rightarrow> bool"       \<comment> \<open>\<open>==\<close> on doubles (not HOL equality: NaN differs from itself)\<close>
  f_lt :: "'a \<Rightarrow> 'a \<Rightarrow> bool"       \<comment> \<open>\<open><\<close>\<close>
  f_le :: "'a \<Rightarrow> 'a \<Rightarrow> bool"       \<comment> \<open>\<open><=\<close>\<close>
  f_trunc :: "'a \<Rightarrow> int"            \<comment> \<open>the cast of \<open>numpy.array(..., dtype=int)\<close>\<close>
  f_parse :: "string \<Rightarrow> 'a option"  \<comment> \<open>string to float64 as \<open>numpy.array(..., dtype=numpy.float64)\<close> does it; \<open>None\<close> is ValueError\<close>
  f_product_wide :: "int \<times> int \<times> int \<Rightarrow> error + int"
                                  \<comment> \<open>\<open>numpy.product\<close> of a list with an entry that does not fit 64 bits\<close>
  f_arange_wide :: "int \<Rightarrow> error + int list"
                                  \<comment> \<open>\<open>numpy.arange\<close> of a Python integer below \<open>-2^63\<close>\<close>

subsection \<open>The global grid state\<close>

text \<open>
  \<open>min_\<close>, \<open>max_\<close> and \<open>N_\<close> are sequences of three entries, one per axis; so is
  \<open>delta_\<close>, a numpy array of shape (3,1). \<open>x\<close>, \<open>y\<close>, \<open>z\<close> are numpy arrays of
  doubles (fields \<open>grid_x\<close>, \<open>grid_y\<close>, \<open>grid_z\<close>). \<open>d3r\<close> has no value until an
  operation assigns it.

  The module stores the bounds in two ways: as a Python list of Python floats (the
  module's defaults and \<open>reset_grid\<close>), or as numpy float64 values (\<open>read\<close> and
  \<open>center_grid\<close>). The two divide differently by zero, so the state records which
  one is current in \<open>np_bounds\<close>. Likewise \<open>N_\<close> holds Python integers (the
  defaults, \<open>reset_grid\<close>, \<open>center_grid\<close>) or is a numpy int64 array (\<open>read\<close>),
  recorded in \<open>np_counts\<close>.

  The state an exception leaves behind is not part of a result. An Isabelle name cannot end
  with an underscore: the globals \<open>min_\<close>, \<open>max_\<close>, \<open>N_\<close>, \<open>delta_\<close> are the fields
  \<open>min_g\<close>, \<open>max_g\<close>, \<open>N_g\<close>, \<open>delta_g\<close>.
\<close>

record 'a grid_state =
  grid_x :: "'a list"
  grid_y :: "'a list"
  grid_z :: "'a list"
  min_g :: "'a \<times> 'a \<times> 'a"
  max_g :: "'a \<times> 'a \<times> 'a"
  N_g :: "int \<times> int \<times> int"
  delta_g :: "'a \<times> 'a \<times> 'a"
  d3r :: "'a option"
  is_initialized :: bool
  np_bounds :: bool
  np_counts :: bool

subsection \<open>grid2vector and vector2grid\<close>

text \<open>
  Both functions allocate \<open>grid = numpy.zeros((3, numpy.product(N_)))\<close> and run the
  same inlined C loops over it.

  \<open>numpy.product\<close> multiplies 64-bit integers and wraps. That is the product
  when \<open>N_\<close> is a numpy array, and when it is a list all of whose entries fit 64
  bits; for a list with an entry outside that range the type numpy chooses is not
  fixed by this module, and the product is the parameter \<open>f_product_wide\<close>.
  \<open>numpy.zeros\<close> refuses a negative count and a buffer of \<open>2^63\<close> bytes or more.
  Memory is not bounded otherwise: an allocation that numpy accepts succeeds.
\<close>

definition int64_wrap :: "int \<Rightarrow> int" where
  "int64_wrap n = (n + 2 ^ 63) mod 2 ^ 64 - 2 ^ 63"

definition in_int64 :: "int \<Rightarrow> bool" where
  "in_int64 n = (- (2 ^ 63) \<le> n \<and> n < 2 ^ 63)"

definition np_product :: "'a flops \<Rightarrow> bool \<Rightarrow> int \<times> int \<times> int \<Rightarrow> error + int" where
  "np_product F np_c n =
     (case n of (n0, n1, n2) \<Rightarrow>
        if np_c \<or> (in_int64 n0 \<and> in_int64 n1 \<and> in_int64 n2)
        then Inr (int64_wrap (int64_wrap (n0 * n1) * n2))
        else f_product_wide F n)"

text \<open>The buffer of \<open>numpy.zeros((3, p))\<close>, row after row: \<open>3 * p\<close> doubles.\<close>

definition np_zeros :: "'a flops \<Rightarrow> int \<Rightarrow> error + 'a list" where
  "np_zeros F p =
     (if p < 0 \<or> 2 ^ 63 \<le> 24 * p then Inl ValueError
      else Inr (replicate (3 * nat p) (f_lit F 0)))"

text \<open>
  In the C code \<open>Nx[0]\<close>, \<open>Ny[0]\<close>, \<open>Nz[0]\<close> are the lengths of the arrays \<open>x\<close>,
  \<open>y\<close>, \<open>z\<close> that were passed in, not the entries of \<open>N_\<close>. \<open>GRID2(r,count)\<close> is
  the double at offset \<open>r * p + count\<close> of the buffer, where \<open>p\<close> is the number of
  columns, and the store is unchecked: inside the buffer it may land in another
  row, outside it does not reach the arrays that are returned.

  \<open>count\<close>, \<open>i\<close>, \<open>j\<close>, \<open>k\<close> are of type \<open>int\<close>, 32 bits. \<open>count += 1\<close> wraps. A
  loop index reaches every length below \<open>2^31\<close>; at a greater length it overflows
  before the loop ends, the loop reads outside its array with a negative index and
  does not return, which is the error \<open>CIntOverflow\<close>.
\<close>

definition c_int_wrap :: "int \<Rightarrow> int" where
  "c_int_wrap n = (n + 2 ^ 31) mod 2 ^ 32 - 2 ^ 31"

definition c_for_ok :: "'b list \<Rightarrow> bool" where
  "c_for_ok xs = (int (length xs) < 2 ^ 31)"

definition GRID2 :: "int \<Rightarrow> int \<Rightarrow> int \<Rightarrow> 'a \<Rightarrow> 'a list \<Rightarrow> 'a list" where
  "GRID2 p r count v mem =
     (let i = r * p + count in if 0 \<le> i \<and> i < 3 * p then mem[nat i := v] else mem)"

fun g2v_loop_k :: "int \<Rightarrow> 'a \<Rightarrow> 'a \<Rightarrow> 'a list \<Rightarrow> int \<times> 'a list \<Rightarrow> int \<times> 'a list" where
  "g2v_loop_k p xi yj [] st = st"
| "g2v_loop_k p xi yj (zk # zs) (count, mem) =
     g2v_loop_k p xi yj zs
       (c_int_wrap (count + 1), GRID2 p 2 count zk (GRID2 p 1 count yj (GRID2 p 0 count xi mem)))"

fun g2v_loop_j :: "int \<Rightarrow> 'a \<Rightarrow> 'a list \<Rightarrow> 'a list \<Rightarrow> int \<times> 'a list \<Rightarrow> error + int \<times> 'a list" where
  "g2v_loop_j p xi [] zs st = Inr st"
| "g2v_loop_j p xi (yj # ys) zs st =
     (if c_for_ok zs then g2v_loop_j p xi ys zs (g2v_loop_k p xi yj zs st)
      else Inl CIntOverflow)"

fun g2v_loop_i :: "int \<Rightarrow> 'a list \<Rightarrow> 'a list \<Rightarrow> 'a list \<Rightarrow> int \<times> 'a list \<Rightarrow> error + int \<times> 'a list" where
  "g2v_loop_i p [] ys zs st = Inr st"
| "g2v_loop_i p (xi # xs) ys zs st =
     (if c_for_ok ys
      then (case g2v_loop_j p xi ys zs st of
              Inl e \<Rightarrow> Inl e
            | Inr st' \<Rightarrow> g2v_loop_i p xs ys zs st')
      else Inl CIntOverflow)"

definition grid2vector :: "'a flops \<Rightarrow> 'a grid_state \<Rightarrow> error + 'a grid_state" where
  "grid2vector F s =
     (case np_product F (np_counts s) (N_g s) of
        Inl e \<Rightarrow> Inl e
      | Inr p \<Rightarrow>
         (case np_zeros F p of
            Inl e \<Rightarrow> Inl e
          | Inr grid \<Rightarrow>
              if c_for_ok (grid_x s)
              then (case g2v_loop_i p (grid_x s) (grid_y s) (grid_z s) (0, grid) of
                      Inl e \<Rightarrow> Inl e
                    | Inr (count, grid') \<Rightarrow>
                        Inr (s\<lparr>grid_x := take (nat p) grid',
                               grid_y := take (nat p) (drop (nat p) grid'),
                               grid_z := take (nat p) (drop (2 * nat p) grid')\<rparr>))
              else Inl CIntOverflow))"

fun v2g_loop_k :: "int \<Rightarrow> 'a \<Rightarrow> 'a \<Rightarrow> 'a list \<Rightarrow> int \<times> 'a list \<Rightarrow> int \<times> 'a list" where
  "v2g_loop_k p xi yj [] st = st"
| "v2g_loop_k p xi yj (zk # zs) (count, mem) =
     v2g_loop_k p xi yj zs
       (c_int_wrap (count + 1), GRID2 p 2 count zk (GRID2 p 1 count yj (GRID2 p 0 count xi mem)))"

fun v2g_loop_j :: "int \<Rightarrow> 'a \<Rightarrow> 'a list \<Rightarrow> 'a list \<Rightarrow> int \<times> 'a list \<Rightarrow> error + int \<times> 'a list" where
  "v2g_loop_j p xi [] zs st = Inr st"
| "v2g_loop_j p xi (yj # ys) zs st =
     (if c_for_ok zs then v2g_loop_j p xi ys zs (v2g_loop_k p xi yj zs st)
      else Inl CIntOverflow)"

fun v2g_loop_i :: "int \<Rightarrow> 'a list \<Rightarrow> 'a list \<Rightarrow> 'a list \<Rightarrow> int \<times> 'a list \<Rightarrow> error + int \<times> 'a list" where
  "v2g_loop_i p [] ys zs st = Inr st"
| "v2g_loop_i p (xi # xs) ys zs st =
     (if c_for_ok ys
      then (case v2g_loop_j p xi ys zs st of
              Inl e \<Rightarrow> Inl e
            | Inr st' \<Rightarrow> v2g_loop_i p xs ys zs st')
      else Inl CIntOverflow)"

definition vector2grid :: "'a flops \<Rightarrow> 'a grid_state \<Rightarrow> error + 'a grid_state" where
  "vector2grid F s =
     (case np_product F (np_counts s) (N_g s) of
        Inl e \<Rightarrow> Inl e
      | Inr p \<Rightarrow>
         (case np_zeros F p of
            Inl e \<Rightarrow> Inl e
          | Inr grid \<Rightarrow>
              if c_for_ok (grid_x s)
              then (case v2g_loop_i p (grid_x s) (grid_y s) (grid_z s) (0, grid) of
                      Inl e \<Rightarrow> Inl e
                    | Inr (count, grid') \<Rightarrow>
                        Inr (s\<lparr>grid_x := take (nat p) grid',
                               grid_y := take (nat p) (drop (nat p) grid'),
                               grid_z := take (nat p) (drop (2 * nat p) grid')\<rparr>))
              else Inl CIntOverflow))"

subsection \<open>grid_init and reset_grid\<close>





definition np_product3 :: "'a flops \<Rightarrow> 'a \<times> 'a \<times> 'a \<Rightarrow> 'a" where
  "np_product3 F d = (case d of (d0, d1, d2) \<Rightarrow> f_mul F (f_mul F d0 d1) d2)"


definition reset_grid :: "'a flops \<Rightarrow> 'a grid_state \<Rightarrow> 'a grid_state" where
  "reset_grid F s =
     s\<lparr>is_initialized := False,
       min_g := (f_lit F (- 8), f_lit F (- 8), f_lit F (- 8)),
       max_g := (f_lit F 8, f_lit F 8, f_lit F 8),
       N_g := (101, 101, 101),
       np_bounds := False, np_counts := False\<rparr>"

subsection \<open>random_grid\<close>

text \<open>
  \<open>numpy.random.normal(loc, scale, size)\<close> reads and advances numpy's global
  generator. The generator is a value of type \<open>'g\<close>, and one draw is the parameter
  \<open>normal loc scale g\<close>, which returns the sample and the next generator; a call
  with \<open>size=N\<close> is \<open>N\<close> draws in a row. \<open>geo_spec\<close> is a list of centres, three
  coordinates each.
\<close>

fun draw_n :: "('a \<Rightarrow> 'a \<Rightarrow> 'g \<Rightarrow> 'a \<times> 'g) \<Rightarrow> 'a \<Rightarrow> 'a \<Rightarrow> nat \<Rightarrow> 'g \<Rightarrow> 'a list \<times> 'g" where
  "draw_n normal loc scale 0 g = ([], g)"
| "draw_n normal loc scale (Suc n) g =
     (case normal loc scale g of (v, g') \<Rightarrow>
        (case draw_n normal loc scale n g' of (vs, g'') \<Rightarrow> (v # vs, g'')))"

text \<open>
  The loop over \<open>ii_a\<close> for one dimension, followed by the reshape, which puts the
  rows of the centres one after the other.
\<close>

fun random_dim :: "'a flops \<Rightarrow> ('a \<Rightarrow> 'a \<Rightarrow> 'g \<Rightarrow> 'a \<times> 'g) \<Rightarrow> 'a list \<Rightarrow> nat \<Rightarrow> 'g \<Rightarrow> 'a list \<times> 'g" where
  "random_dim F normal [] n g = ([], g)"
| "random_dim F normal (loc # locs) n g =
     (case draw_n normal loc (f_lit F (1 / 2)) n g of (vs, g') \<Rightarrow>
        (case random_dim F normal locs n g' of (ws, g'') \<Rightarrow> (vs @ ws, g'')))"

definition random_grid ::
  "'a flops \<Rightarrow> ('a \<Rightarrow> 'a \<Rightarrow> 'g \<Rightarrow> 'a \<times> 'g) \<Rightarrow> ('a \<times> 'a \<times> 'a) list \<Rightarrow> int \<Rightarrow> 'a \<Rightarrow>
   'a grid_state \<times> 'g \<Rightarrow> error + 'a grid_state \<times> 'g" where
  "random_grid F normal geo_spec N scale sg =
     (case sg of (s, g) \<Rightarrow>
       if N < 0 then Inl ValueError
       else case random_dim F normal (map fst geo_spec) (nat N) g of (xs, g1) \<Rightarrow>
           (case random_dim F normal (map (\<lambda>c. fst (snd c)) geo_spec) (nat N) g1 of (ys, g2) \<Rightarrow>
           (case random_dim F normal (map (\<lambda>c. snd (snd c)) geo_spec) (nat N) g2 of (zs, g3) \<Rightarrow>
              Inr (s\<lparr>grid_x := xs, grid_y := ys, grid_z := zs, is_initialized := True\<rparr>, g3))))"

subsection \<open>read\<close>

text \<open>
  The file system is a map from file names to the lines of the file. \<open>line.split()\<close>
  cuts a line at runs of whitespace; \<open>dim.find(j)\<close> is the position of the first
  occurrence of \<open>j\<close> in \<open>'xyz'\<close>, or \<open>-1\<close>; \<open>lower\<close> maps the ASCII capitals.
\<close>

definition is_space :: "char \<Rightarrow> bool" where
  "is_space c = (c \<in> set [CHR '' '', CHR 0x09, CHR 0x0A, CHR 0x0B, CHR 0x0C, CHR 0x0D])"

fun split_from :: "string \<Rightarrow> string \<Rightarrow> string list" where
  "split_from cur [] = (if cur = [] then [] else [rev cur])"
| "split_from cur (c # cs) =
     (if is_space c then (if cur = [] then split_from [] cs else rev cur # split_from [] cs)
      else split_from (c # cur) cs)"

definition split :: "string \<Rightarrow> string list" where
  "split line = split_from [] line"

fun str_find :: "string \<Rightarrow> string \<Rightarrow> int" where
  "str_find [] sub = (if sub = [] then 0 else - 1)"
| "str_find (c # cs) sub =
     (if take (length sub) (c # cs) = sub then 0
      else (let r = str_find cs sub in if r < 0 then - 1 else r + 1))"

definition lower :: "string \<Rightarrow> string" where
  "lower t = map (\<lambda>c. let n = (of_char c :: nat) in if 65 \<le> n \<and> n \<le> 90 then char_of (n + 32) else c) t"

text \<open>
  \<open>grid\<close> and \<open>index\<close> are Python lists of three entries; an entry of \<open>index\<close> is
  \<open>[]\<close> (here \<open>None\<close>) until a position is stored in it. A position comes from
  \<open>find\<close>, so it is \<open>-1\<close>, 0, 1 or 2, and \<open>-1\<close> addresses the last entry.
\<close>

fun get3 :: "int \<Rightarrow> 'b \<times> 'b \<times> 'b \<Rightarrow> 'b" where
  "get3 i (a, b, c) = (if i = 0 then a else if i = 1 then b else c)"

fun set3 :: "int \<Rightarrow> 'b \<Rightarrow> 'b \<times> 'b \<times> 'b \<Rightarrow> 'b \<times> 'b \<times> 'b" where
  "set3 i v (a, b, c) = (if i = 0 then (v, b, c) else if i = 1 then (a, v, c) else (a, b, v))"

definition check :: "string list \<Rightarrow> bool option \<Rightarrow> error + bool" where
  "check i is_vector =
     (if length i = 3 \<and> (is_vector = None \<or> is_vector = Some True) then Inr True
      else if length i = 4 \<and> (is_vector = None \<or> is_vector = Some False) then Inr False
      else Inl (IOError_Inconsistency i))"

type_synonym read_state = "bool option \<times> (string list \<times> string list \<times> string list) \<times> (int option \<times> int option \<times> int option)"

text \<open>\<open>for i,j in enumerate(cl)\<close> in the vector branch.\<close>

fun read_tokens ::
  "int \<Rightarrow> string list \<Rightarrow> (string list \<times> string list \<times> string list) \<times> (int option \<times> int option \<times> int option) \<Rightarrow>
   (string list \<times> string list \<times> string list) \<times> (int option \<times> int option \<times> int option)" where
  "read_tokens i [] gi = gi"
| "read_tokens i (j # js) (grid, index) =
     read_tokens (i + 1) js
       (case get3 i index of
          None \<Rightarrow> (grid, set3 i (Some (str_find ''xyz'' j)) index)
        | Some n \<Rightarrow> (set3 n (get3 n grid @ [j]) grid, index))"

definition read_line :: "string \<Rightarrow> string \<Rightarrow> read_state \<Rightarrow> error + read_state" where
  "read_line comment line st =
     (case st of (is_vector, grid, index) \<Rightarrow>
       (let cl = split line in
        if \<not> (cl = [] \<or> hd cl = comment) then
          (case check cl is_vector of
             Inl e \<Rightarrow> Inl e
           | Inr v \<Rightarrow>
               if v then (case read_tokens 0 cl (grid, index) of (grid', index') \<Rightarrow> Inr (Some v, grid', index'))
               else Inr (Some v, set3 (str_find ''xyz'' (lower (hd cl))) (tl cl) grid, index))
        else Inr st))"

fun read_lines :: "string \<Rightarrow> string list \<Rightarrow> read_state \<Rightarrow> error + read_state" where
  "read_lines comment [] st = Inr st"
| "read_lines comment (line # rest) st =
     (case read_line comment line st of
        Inl e \<Rightarrow> Inl e
      | Inr st' \<Rightarrow> read_lines comment rest st')"

fun parse_row :: "'a flops \<Rightarrow> string list \<Rightarrow> error + 'a list" where
  "parse_row F [] = Inr []"
| "parse_row F (t # ts) =
     (case f_parse F t of
        None \<Rightarrow> Inl ValueError
      | Some v \<Rightarrow> (case parse_row F ts of Inl e \<Rightarrow> Inl e | Inr vs \<Rightarrow> Inr (v # vs)))"

text \<open>
  \<open>numpy.array(grid, dtype=numpy.float64)\<close>: rows of different lengths and tokens
  that are no numbers raise ValueError.
\<close>

definition np_array_float ::
  "'a flops \<Rightarrow> string list \<times> string list \<times> string list \<Rightarrow> error + 'a list \<times> 'a list \<times> 'a list" where
  "np_array_float F grid =
     (case grid of (r0, r1, r2) \<Rightarrow>
        if length r1 \<noteq> length r0 \<or> length r2 \<noteq> length r0 then Inl ValueError
        else case parse_row F r0 of Inl e \<Rightarrow> Inl e | Inr a0 \<Rightarrow>
            (case parse_row F r1 of Inl e \<Rightarrow> Inl e | Inr a1 \<Rightarrow>
            (case parse_row F r2 of Inl e \<Rightarrow> Inl e | Inr a2 \<Rightarrow> Inr (a0, a1, a2))))"

text \<open>
  In the branch of the regular format the columns 0, 1 and 2 of the array are read;
  its rows have the same length, and \<open>grid[:,0]\<close> raises IndexError when that
  length is 0. The result is the state and the returned \<open>is_vector\<close>, which is
  \<open>None\<close> when no line was kept.
\<close>

definition read ::
  "'a flops \<Rightarrow> (string \<Rightarrow> string list option) \<Rightarrow> string \<Rightarrow> string \<Rightarrow> 'a grid_state \<Rightarrow>
   error + 'a grid_state \<times> bool option" where
  "read F fs filename comment s =
     (case fs filename of
        None \<Rightarrow> Inl IOError_NoFile
      | Some lines \<Rightarrow>
         (case read_lines comment lines (None, ([], [], []), (None, None, None)) of
            Inl e \<Rightarrow> Inl e
          | Inr (is_vector, grid, index) \<Rightarrow>
             (case np_array_float F grid of
                Inl e \<Rightarrow> Inl e
              | Inr (a0, a1, a2) \<Rightarrow>
                 if is_vector = Some True then
                   Inr (s\<lparr>grid_x := a0, grid_y := a1, grid_z := a2, is_initialized := True\<rparr>, is_vector)
                 else if length a0 < 3 then Inl IndexError
                 else Inr (s\<lparr>min_g := (a0 ! 0, a1 ! 0, a2 ! 0),
                             max_g := (a0 ! 1, a1 ! 1, a2 ! 1),
                             N_g := (f_trunc F (a0 ! 2), f_trunc F (a1 ! 2), f_trunc F (a2 ! 2)),
                             np_bounds := True, np_counts := True\<rparr>, is_vector))))"

text \<open>
  The lines the loop of \<open>read\<close> acts on: the condition of its \<open>if\<close>.
\<close>

definition kept_line :: "string \<Rightarrow> string \<Rightarrow> bool" where
  "kept_line comment line = (\<not> (split line = [] \<or> hd (split line) = comment))"

text \<open>
  A line of the regular format, \<open><axis-letter> <min> <max> <count>\<close>: four tokens,
  an axis letter in either case, and three tokens that numpy reads as numbers.
\<close>

definition regular_line :: "'a flops \<Rightarrow> string \<Rightarrow> bool" where
  "regular_line F line =
     (case split line of
        [a, mn, mx, n] \<Rightarrow>
          (lower a = ''x'' \<or> lower a = ''y'' \<or> lower a = ''z'') \<and>
          f_parse F mn \<noteq> None \<and> f_parse F mx \<noteq> None \<and> f_parse F n \<noteq> None
      | _ \<Rightarrow> False)"

subsection \<open>center_grid\<close>

text \<open>
  Python's \<open>min\<close> and \<open>max\<close> keep the first element and replace it by a later one
  that compares smaller, respectively greater. The text written to \<open>display\<close> is
  not part of the state and is left out.
\<close>

fun py_min :: "'a flops \<Rightarrow> 'a \<Rightarrow> 'a list \<Rightarrow> 'a" where
  "py_min F m [] = m"
| "py_min F m (v # vs) = py_min F (if f_lt F v m then v else m) vs"

fun py_max :: "'a flops \<Rightarrow> 'a \<Rightarrow> 'a list \<Rightarrow> 'a" where
  "py_max F m [] = m"
| "py_max F m (v # vs) = py_max F (if f_lt F m v then v else m) vs"

text \<open>The first loop of \<open>center_grid\<close>, for one axis: the new \<open>delta_\<close> entry.\<close>

definition center_delta :: "'a flops \<Rightarrow> 'a \<Rightarrow> 'a \<Rightarrow> 'a" where
  "center_delta F a d =
     (let d_tilde = f_abs F (f_sub F (f_lit F 0) a);
          N_tilde = f_round F (f_abs F (f_div F d_tilde d))
      in if \<not> f_eq F N_tilde (f_of_int F 0) then f_div F d_tilde N_tilde else d)"

text \<open>
  The second loop, for one axis. \<open>numpy.nonzero(ac[ii] <= grid[ii])[0][0]\<close> is the
  position of the first coordinate that the anchor is less than or equal to;
  taking element 0 of an empty result raises IndexError.
\<close>

definition center_axis :: "'a flops \<Rightarrow> 'a \<Rightarrow> 'a \<Rightarrow> 'a list \<Rightarrow> error + 'a list" where
  "center_axis F a d grid =
     (case find (\<lambda>v. f_le F a v) grid of
        None \<Rightarrow> Inl IndexError
      | Some gp \<Rightarrow>
         (let g = f_abs F (f_sub F gp a);
              c = f_sub F (f_mul F (f_div F (f_of_int F 1) (f_lit F 2)) d) g
          in Inr (map (\<lambda>v. f_add F v c) grid)))"

definition py_min_of :: "'a flops \<Rightarrow> 'a list \<Rightarrow> error + 'a" where
  "py_min_of F vs = (case vs of [] \<Rightarrow> Inl ValueError | v # rest \<Rightarrow> Inr (py_min F v rest))"

definition py_max_of :: "'a flops \<Rightarrow> 'a list \<Rightarrow> error + 'a" where
  "py_max_of F vs = (case vs of [] \<Rightarrow> Inl ValueError | v # rest \<Rightarrow> Inr (py_max F v rest))"

definition center_grid :: "'a flops \<Rightarrow> 'a \<times> 'a \<times> 'a \<Rightarrow> 'a grid_state \<Rightarrow> error + 'a grid_state" where
  "center_grid F ac s =
     (case (ac, delta_g s) of ((a0, a1, a2), (e0, e1, e2)) \<Rightarrow>
       (let d0 = center_delta F a0 e0; d1 = center_delta F a1 e1; d2 = center_delta F a2 e2 in
        case center_axis F a0 d0 (grid_x s) of Inl e \<Rightarrow> Inl e | Inr g0 \<Rightarrow>
       (case center_axis F a1 d1 (grid_y s) of Inl e \<Rightarrow> Inl e | Inr g1 \<Rightarrow>
       (case center_axis F a2 d2 (grid_z s) of Inl e \<Rightarrow> Inl e | Inr g2 \<Rightarrow>
       (case py_min_of F g0 of Inl e \<Rightarrow> Inl e | Inr mn0 \<Rightarrow>
       (case py_min_of F g1 of Inl e \<Rightarrow> Inl e | Inr mn1 \<Rightarrow>
       (case py_min_of F g2 of Inl e \<Rightarrow> Inl e | Inr mn2 \<Rightarrow>
       (case py_max_of F g0 of Inl e \<Rightarrow> Inl e | Inr mx0 \<Rightarrow>
       (case py_max_of F g1 of Inl e \<Rightarrow> Inl e | Inr mx1 \<Rightarrow>
       (case py_max_of F g2 of Inl e \<Rightarrow> Inl e | Inr mx2 \<Rightarrow>
          Inr (s\<lparr>grid_x := g0, grid_y := g1, grid_z := g2,
                 delta_g := (d0, d1, d2), d3r := Some (np_product3 F (d0, d1, d2)),
                 min_g := (mn0, mn1, mn2), max_g := (mx0, mx1, mx2),
                 N_g := (int (length g0), int (length g1), int (length g2)),
                 np_bounds := True, np_counts := False\<rparr>)))))))))))"

subsection \<open>An exact instance of the operations\<close>

text \<open>
  For evaluating the embedding on concrete inputs: rational arithmetic, which agrees
  with doubles on the small integers and halves used below, and a reader of
  decimal integer tokens.
\<close>

fun digits_val :: "nat \<Rightarrow> string \<Rightarrow> nat option" where
  "digits_val acc [] = Some acc"
| "digits_val acc (c # cs) =
     (let n = (of_char c :: nat) in
      if 48 \<le> n \<and> n \<le> 57 then digits_val (10 * acc + (n - 48)) cs else None)"

definition parse_int_token :: "string \<Rightarrow> rat option" where
  "parse_int_token t =
     (case t of
        [] \<Rightarrow> None
      | c # cs \<Rightarrow>
          if c = CHR ''-'' then (if cs = [] then None else map_option (\<lambda>n. - of_nat n) (digits_val 0 cs))
          else map_option of_nat (digits_val 0 t))"

definition exact_ops :: "rat flops" where
  "exact_ops =
     \<lparr>f_lit = (\<lambda>q. q), f_of_int = of_int,
      f_add = (+), f_sub = (-), f_mul = (*), f_div = (/),
      f_abs = abs, f_round = (\<lambda>q. of_int (round q)),
      f_eq = (=), f_lt = (<), f_le = (\<le>),
      f_trunc = (\<lambda>q. if q < 0 then - \<lfloor>- q\<rfloor> else \<lfloor>q\<rfloor>),
      f_parse = parse_int_token,
      f_product_wide = (\<lambda>n. Inl ValueError),
      f_arange_wide = (\<lambda>n. Inr [])\<rparr>"

subsection \<open>The module's initial state and example states\<close>

text \<open>
  The values the module assigns when it is loaded. \<open>x = [0]\<close>, \<open>y\<close> and \<open>z\<close> start
  as one-element sequences and \<open>delta_\<close> as zeros.
\<close>

definition initial_state :: "'a flops \<Rightarrow> 'a grid_state" where
  "initial_state F =
     \<lparr>grid_x = [f_of_int F 0], grid_y = [f_of_int F 0], grid_z = [f_of_int F 0],
      min_g = (f_lit F (- 8), f_lit F (- 8), f_lit F (- 8)),
      max_g = (f_lit F 8, f_lit F 8, f_lit F 8),
      N_g = (101, 101, 101),
      delta_g = (f_lit F 0, f_lit F 0, f_lit F 0),
      d3r = None, is_initialized = False, np_bounds = False, np_counts = False\<rparr>"

text \<open>A regular grid of 2 by 3 by 2 points, with counts that match its arrays.\<close>

definition grid_2_3_2 :: "rat grid_state" where
  "grid_2_3_2 = (initial_state exact_ops)
     \<lparr>grid_x := [1, 2], grid_y := [3, 4, 5], grid_z := [6, 7], N_g := (2, 3, 2)\<rparr>"


text \<open>
  Counts that match the arrays, three axes of \<open>2^21\<close> coordinates each: the
  product of the counts is \<open>2^63\<close>.
\<close>

definition huge_grid :: "rat grid_state" where
  "huge_grid = (initial_state exact_ops)
     \<lparr>grid_x := replicate 2097152 0, grid_y := replicate 2097152 0, grid_z := replicate 2097152 0,
      N_g := (2097152, 2097152, 2097152)\<rparr>"


text \<open>Bounds and counts for \<open>grid_init\<close>: a regular grid, counts of zero, and one point on an axis whose bounds differ.\<close>

definition small_bounds :: "rat grid_state" where
  "small_bounds = (initial_state exact_ops)
     \<lparr>min_g := (- 1, - 2, 0), max_g := (1, 2, 0), N_g := (3, 5, 1)\<rparr>"



text \<open>The regular grid that \<open>grid_init\<close> builds from \<open>small_bounds\<close>.\<close>

definition built_grid :: "rat grid_state" where
  "built_grid = small_bounds
     \<lparr>grid_x := [- 1, 0, 1], grid_y := [- 2, - 1, 0, 1, 2], grid_z := [0],
      delta_g := (1, 1, 1), d3r := Some 1, is_initialized := True\<rparr>"

text \<open>Two grid files: one that mixes a vector header with a regular line, and one in the regular format with a comment and a blank line.\<close>

definition mixed_file :: "string list" where
  "mixed_file = [''y x z'', ''5 -5 0'', ''z 7 0 1'']"

definition regular_file :: "string list" where
  "regular_file = [''# grid'', ''x -5 5 11'', [], ''Y -2 2 5'', ''z 0 0 1'']"

section \<open>Properties\<close>

subsection \<open>Machine integers and the stores of the C loops\<close>

lemma int64_wrap_id: "in_int64 n \<Longrightarrow> int64_wrap n = n"
  by (simp add: int64_wrap_def in_int64_def)

lemma int64_wrap_mod: "int64_wrap a mod 2 ^ 64 = a mod 2 ^ 64"
proof -
  have "((a + 2 ^ 63) mod 2 ^ 64 - 2 ^ 63) mod 2 ^ 64 = (a + 2 ^ 63 - 2 ^ 63) mod (2 ^ 64 :: int)"
    by (rule mod_diff_left_eq)
  then show ?thesis by (simp add: int64_wrap_def)
qed

lemma int64_wrap_mult: "int64_wrap (int64_wrap a * b) = int64_wrap (a * b)"
proof -
  have "(int64_wrap a * b) mod 2 ^ 64 = (a * b) mod 2 ^ 64"
    using int64_wrap_mod [of a] by (metis mod_mult_left_eq)
  then have "(int64_wrap a * b + 2 ^ 63) mod 2 ^ 64 = (a * b + 2 ^ 63) mod (2 ^ 64 :: int)"
    by (metis mod_add_left_eq)
  then show ?thesis by (simp add: int64_wrap_def)
qed

lemma in_int64_wrap: "in_int64 (int64_wrap n)"
  by (simp add: int64_wrap_def in_int64_def)

lemma np_product_fits:
  assumes "np_c \<or> (in_int64 n0 \<and> in_int64 n1 \<and> in_int64 n2)"
  shows "np_product F np_c (n0, n1, n2) = Inr (int64_wrap (n0 * n1 * n2))"
  using assms by (auto simp: np_product_def int64_wrap_mult)

lemma c_int_wrap_id: "- (2 ^ 31) \<le> n \<Longrightarrow> n < 2 ^ 31 \<Longrightarrow> c_int_wrap n = n"
  by (simp add: c_int_wrap_def)

lemma length_GRID2 [simp]: "length (GRID2 p r count v mem) = length mem"
  by (simp add: GRID2_def Let_def)

lemma GRID2_rows:
  assumes "length A = p" "length B = p" "length C = p" "c < p"
  shows "GRID2 (int p) 2 (int c) v2 (GRID2 (int p) 1 (int c) v1 (GRID2 (int p) 0 (int c) v0 (A @ B @ C))) =
         A[c := v0] @ B[c := v1] @ C[c := v2]"
proof -
  have i0: "nat (0 * int p + int c) = c" by simp
  have i1: "nat (1 * int p + int c) = p + c" by (simp add: nat_add_distrib)
  have i2: "nat (2 * int p + int c) = p + p + c" by (simp add: nat_add_distrib nat_mult_distrib)
  have s0: "GRID2 (int p) 0 (int c) v0 (A @ B @ C) = A[c := v0] @ B @ C"
    using assms by (simp add: GRID2_def Let_def list_update_append)
  have s1: "GRID2 (int p) 1 (int c) v1 (A[c := v0] @ B @ C) = A[c := v0] @ B[c := v1] @ C"
    using assms by (simp add: GRID2_def Let_def nat_add_distrib list_update_append)
  have s2: "GRID2 (int p) 2 (int c) v2 (A[c := v0] @ B[c := v1] @ C) = A[c := v0] @ B[c := v1] @ C[c := v2]"
    using assms by (simp add: GRID2_def Let_def nat_add_distrib nat_mult_distrib list_update_append)
  show ?thesis by (simp only: s0 s1 s2)
qed

lemma g2v_loop_k_closed:
  "length a = c \<Longrightarrow> length b = c \<Longrightarrow> length d = c \<Longrightarrow>
   length zs \<le> length ra \<Longrightarrow> length rb = length ra \<Longrightarrow> length rc = length ra \<Longrightarrow>
   p = c + length ra \<Longrightarrow> c + length zs < 2 ^ 31 \<Longrightarrow>
   g2v_loop_k (int p) xi yj zs (int c, (a @ ra) @ (b @ rb) @ (d @ rc)) =
     (int (c + length zs),
      (a @ replicate (length zs) xi @ drop (length zs) ra) @
      (b @ replicate (length zs) yj @ drop (length zs) rb) @
      (d @ zs @ drop (length zs) rc))"
proof (induction zs arbitrary: c a b d ra rb rc)
  case Nil
  then show ?case by simp
next
  case (Cons zk zs)
  from Cons.prems obtain r0 ra' where ra: "ra = r0 # ra'" by (cases ra) auto
  from Cons.prems ra obtain r1 rb' where rb: "rb = r1 # rb'" by (cases rb) auto
  from Cons.prems ra obtain r2 rc' where rc: "rc = r2 # rc'" by (cases rc) auto
  have lt: "c < p" using Cons.prems ra by simp
  have rows: "GRID2 (int p) 2 (int c) zk (GRID2 (int p) 1 (int c) yj (GRID2 (int p) 0 (int c) xi
                ((a @ ra) @ (b @ rb) @ (d @ rc)))) =
              (a @ ra)[c := xi] @ (b @ rb)[c := yj] @ (d @ rc)[c := zk]"
    using Cons.prems lt by (intro GRID2_rows) simp_all
  have upd: "(a @ ra)[c := xi] = (a @ [xi]) @ ra'" "(b @ rb)[c := yj] = (b @ [yj]) @ rb'"
    "(d @ rc)[c := zk] = (d @ [zk]) @ rc'"
    using Cons.prems by (simp_all add: ra rb rc list_update_append)
  have cnt: "c_int_wrap (int c + 1) = int (c + 1)"
    using Cons.prems by (simp add: c_int_wrap_id)
  have step: "g2v_loop_k (int p) xi yj (zk # zs) (int c, (a @ ra) @ (b @ rb) @ (d @ rc)) =
              g2v_loop_k (int p) xi yj zs (int (c + 1), ((a @ [xi]) @ ra') @ ((b @ [yj]) @ rb') @ ((d @ [zk]) @ rc'))"
    by (simp only: g2v_loop_k.simps rows upd cnt)
  have "g2v_loop_k (int p) xi yj zs (int (c + 1), ((a @ [xi]) @ ra') @ ((b @ [yj]) @ rb') @ ((d @ [zk]) @ rc')) =
        (int (c + 1 + length zs),
          ((a @ [xi]) @ replicate (length zs) xi @ drop (length zs) ra') @
          ((b @ [yj]) @ replicate (length zs) yj @ drop (length zs) rb') @
          ((d @ [zk]) @ zs @ drop (length zs) rc'))"
    using Cons.prems by (intro Cons.IH) (simp_all add: ra rb rc)
  with step show ?case by (simp add: ra rb rc)
qed

subsection \<open>The flattening loops in closed form\<close>

lemma g2v_loop_j_closed:
  "length a = c \<Longrightarrow> length b = c \<Longrightarrow> length d = c \<Longrightarrow>
   length ys * length zs \<le> length ra \<Longrightarrow> length rb = length ra \<Longrightarrow> length rc = length ra \<Longrightarrow>
   p = c + length ra \<Longrightarrow> c + length ys * length zs < 2 ^ 31 \<Longrightarrow> c_for_ok zs \<Longrightarrow>
   g2v_loop_j (int p) xi ys zs (int c, (a @ ra) @ (b @ rb) @ (d @ rc)) =
     Inr (int (c + length ys * length zs),
          (a @ replicate (length ys * length zs) xi @ drop (length ys * length zs) ra) @
          (b @ concat (map (replicate (length zs)) ys) @ drop (length ys * length zs) rb) @
          (d @ concat (replicate (length ys) zs) @ drop (length ys * length zs) rc))"
proof (induction ys arbitrary: c a b d ra rb rc)
  case Nil
  then show ?case by simp
next
  case (Cons yj ys)
  let ?n = "length zs"
  have le: "?n \<le> length ra" and small: "c + ?n < 2 ^ 31" using Cons.prems by simp_all
  have k: "g2v_loop_k (int p) xi yj zs (int c, (a @ ra) @ (b @ rb) @ (d @ rc)) =
     (int (c + ?n),
      ((a @ replicate ?n xi) @ drop ?n ra) @
      ((b @ replicate ?n yj) @ drop ?n rb) @
      ((d @ zs) @ drop ?n rc))"
    using g2v_loop_k_closed [of a c b d zs ra rb rc p xi yj] Cons.prems le small by simp
  have j: "g2v_loop_j (int p) xi ys zs (int (c + ?n), ((a @ replicate ?n xi) @ drop ?n ra) @
           ((b @ replicate ?n yj) @ drop ?n rb) @ ((d @ zs) @ drop ?n rc)) =
     Inr (int (c + ?n + length ys * ?n),
          ((a @ replicate ?n xi) @ replicate (length ys * ?n) xi @ drop (length ys * ?n) (drop ?n ra)) @
          ((b @ replicate ?n yj) @ concat (map (replicate ?n) ys) @ drop (length ys * ?n) (drop ?n rb)) @
          ((d @ zs) @ concat (replicate (length ys) zs) @ drop (length ys * ?n) (drop ?n rc)))"
    using Cons.prems by (intro Cons.IH) simp_all
  have "g2v_loop_j (int p) xi (yj # ys) zs (int c, (a @ ra) @ (b @ rb) @ (d @ rc)) =
        g2v_loop_j (int p) xi ys zs (int (c + ?n), ((a @ replicate ?n xi) @ drop ?n ra) @
           ((b @ replicate ?n yj) @ drop ?n rb) @ ((d @ zs) @ drop ?n rc))"
    using Cons.prems(9) by (simp only: g2v_loop_j.simps k if_True)
  also note j
  finally show ?case
    by (simp add: replicate_add add.commute)
qed

lemma length_concat_map_replicate: "length (concat (map (replicate m) xs)) = length xs * m"
  by (induction xs) simp_all

lemma length_concat_replicate: "length (concat (replicate n B)) = n * length B"
  by (induction n) simp_all

lemma g2v_loop_i_closed:
  "length a = c \<Longrightarrow> length b = c \<Longrightarrow> length d = c \<Longrightarrow>
   length xs * (length ys * length zs) \<le> length ra \<Longrightarrow> length rb = length ra \<Longrightarrow> length rc = length ra \<Longrightarrow>
   p = c + length ra \<Longrightarrow> c + length xs * (length ys * length zs) < 2 ^ 31 \<Longrightarrow>
   c_for_ok ys \<Longrightarrow> c_for_ok zs \<Longrightarrow>
   g2v_loop_i (int p) xs ys zs (int c, (a @ ra) @ (b @ rb) @ (d @ rc)) =
     Inr (int (c + length xs * (length ys * length zs)),
          (a @ concat (map (replicate (length ys * length zs)) xs) @ drop (length xs * (length ys * length zs)) ra) @
          (b @ concat (replicate (length xs) (concat (map (replicate (length zs)) ys))) @ drop (length xs * (length ys * length zs)) rb) @
          (d @ concat (replicate (length xs) (concat (replicate (length ys) zs))) @ drop (length xs * (length ys * length zs)) rc))"
proof (induction xs arbitrary: c a b d ra rb rc)
  case Nil
  then show ?case by simp
next
  case (Cons xi xs)
  let ?n = "length ys * length zs"
  let ?B = "concat (map (replicate (length zs)) ys)"
  let ?C = "concat (replicate (length ys) zs)"
  have le: "?n \<le> length ra" and small: "c + ?n < 2 ^ 31" using Cons.prems by simp_all
  have lB: "length ?B = ?n" by (simp add: length_concat_map_replicate)
  have lC: "length ?C = ?n" by (simp add: length_concat_replicate)
  have jj: "g2v_loop_j (int p) xi ys zs (int c, (a @ ra) @ (b @ rb) @ (d @ rc)) =
     Inr (int (c + ?n),
          ((a @ replicate ?n xi) @ drop ?n ra) @ ((b @ ?B) @ drop ?n rb) @ ((d @ ?C) @ drop ?n rc))"
    using g2v_loop_j_closed [of a c b d ys zs ra rb rc p xi] Cons.prems le small by simp
  have ii: "g2v_loop_i (int p) xs ys zs (int (c + ?n), ((a @ replicate ?n xi) @ drop ?n ra) @ ((b @ ?B) @ drop ?n rb) @ ((d @ ?C) @ drop ?n rc)) =
     Inr (int (c + ?n + length xs * ?n),
          ((a @ replicate ?n xi) @ concat (map (replicate ?n) xs) @ drop (length xs * ?n) (drop ?n ra)) @
          ((b @ ?B) @ concat (replicate (length xs) ?B) @ drop (length xs * ?n) (drop ?n rb)) @
          ((d @ ?C) @ concat (replicate (length xs) ?C) @ drop (length xs * ?n) (drop ?n rc)))"
    using Cons.prems lB lC by (intro Cons.IH) simp_all
  have "g2v_loop_i (int p) (xi # xs) ys zs (int c, (a @ ra) @ (b @ rb) @ (d @ rc)) =
        g2v_loop_i (int p) xs ys zs (int (c + ?n), ((a @ replicate ?n xi) @ drop ?n ra) @ ((b @ ?B) @ drop ?n rb) @ ((d @ ?C) @ drop ?n rc))"
    using Cons.prems(9) by (simp only: g2v_loop_i.simps jj sum.case if_True)
  also note ii
  finally show ?case
    by (simp add: add.commute)
qed

lemma nth_concat_map_replicate:
  "i < length xs \<Longrightarrow> j < m \<Longrightarrow> concat (map (replicate m) xs) ! (i * m + j) = xs ! i"
proof (induction xs arbitrary: i)
  case Nil
  then show ?case by simp
next
  case (Cons x xs)
  show ?case
  proof (cases i)
    case 0
    with Cons.prems show ?thesis by (simp add: nth_append)
  next
    case (Suc i')
    with Cons.prems have "concat (map (replicate m) xs) ! (i' * m + j) = xs ! i'"
      by (intro Cons.IH) simp_all
    with Suc Cons.prems show ?thesis by (simp add: nth_append add.assoc)
  qed
qed

lemma nth_concat_replicate:
  "i < n \<Longrightarrow> j < length B \<Longrightarrow> concat (replicate n B) ! (i * length B + j) = B ! j"
proof (induction n arbitrary: i)
  case 0
  then show ?case by simp
next
  case (Suc n)
  show ?case
  proof (cases i)
    case 0
    with Suc.prems show ?thesis by (simp add: nth_append)
  next
    case (Suc i')
    with Suc.prems have "concat (replicate n B) ! (i' * length B + j) = B ! j"
      by (intro Suc.IH) simp_all
    with Suc Suc.prems show ?thesis by (simp add: nth_append add.assoc)
  qed
qed

lemma index_bound: "j < ny \<Longrightarrow> k < nz \<Longrightarrow> j * nz + k < ny * (nz::nat)"
proof -
  assume j: "j < ny" and k: "k < nz"
  have "j * nz + k < j * nz + nz" using k by simp
  also have "\<dots> = Suc j * nz" by simp
  also have "\<dots> \<le> ny * nz" using j by (intro mult_le_mono1) simp
  finally show ?thesis .
qed

text \<open>The call in closed form, when the points fit the buffer and the counters.\<close>

lemma grid2vector_closed:
  assumes prod: "np_product F (np_counts s) (N_g s) = Inr (int p)"
    and zeros: "24 * int p < 2 ^ 63"
    and fit: "length (grid_x s) * (length (grid_y s) * length (grid_z s)) \<le> p"
    and small: "length (grid_x s) * (length (grid_y s) * length (grid_z s)) < 2 ^ 31"
    and ok: "c_for_ok (grid_x s)" "c_for_ok (grid_y s)" "c_for_ok (grid_z s)"
  shows "grid2vector F s =
     Inr (s\<lparr>grid_x := concat (map (replicate (length (grid_y s) * length (grid_z s))) (grid_x s)) @
                   replicate (p - length (grid_x s) * (length (grid_y s) * length (grid_z s))) (f_lit F 0),
            grid_y := concat (replicate (length (grid_x s)) (concat (map (replicate (length (grid_z s))) (grid_y s)))) @
                   replicate (p - length (grid_x s) * (length (grid_y s) * length (grid_z s))) (f_lit F 0),
            grid_z := concat (replicate (length (grid_x s)) (concat (replicate (length (grid_y s)) (grid_z s)))) @
                   replicate (p - length (grid_x s) * (length (grid_y s) * length (grid_z s))) (f_lit F 0)\<rparr>)"
proof -
  let ?xs = "grid_x s" and ?ys = "grid_y s" and ?zs = "grid_z s"
  let ?n = "length ?xs * (length ?ys * length ?zs)"
  let ?Z = "replicate p (f_lit F 0)"
  let ?A = "concat (map (replicate (length ?ys * length ?zs)) ?xs)"
  let ?B = "concat (replicate (length ?xs) (concat (map (replicate (length ?zs)) ?ys)))"
  let ?C = "concat (replicate (length ?xs) (concat (replicate (length ?ys) ?zs)))"
  let ?T = "replicate (p - ?n) (f_lit F 0)"
  have z: "np_zeros F (int p) = Inr (([] @ ?Z) @ ([] @ ?Z) @ ([] @ ?Z))"
    using zeros by (simp add: np_zeros_def replicate_add [symmetric])
  have loop: "g2v_loop_i (int p) ?xs ?ys ?zs (int 0, ([] @ ?Z) @ ([] @ ?Z) @ ([] @ ?Z)) =
     Inr (int (0 + ?n), ([] @ ?A @ drop ?n ?Z) @ ([] @ ?B @ drop ?n ?Z) @ ([] @ ?C @ drop ?n ?Z))"
    using fit small ok(2,3) by (intro g2v_loop_i_closed) simp_all
  have lens: "length ?A = ?n" "length ?B = ?n" "length ?C = ?n"
    by (simp_all add: length_concat_map_replicate length_concat_replicate)
  have lA: "length (?A @ ?T) = p" "length (?B @ ?T) = p" "length (?C @ ?T) = p"
    using fit lens by simp_all
  have loop': "g2v_loop_i (int p) ?xs ?ys ?zs (0, ([] @ ?Z) @ ([] @ ?Z) @ ([] @ ?Z)) =
     Inr (int ?n, (?A @ ?T) @ (?B @ ?T) @ (?C @ ?T))"
    using loop by simp
  have t0: "take p ((?A @ ?T) @ (?B @ ?T) @ (?C @ ?T)) = ?A @ ?T"
    using lA(1) by (simp del: append_assoc)
  have t1: "take p (drop p ((?A @ ?T) @ (?B @ ?T) @ (?C @ ?T))) = ?B @ ?T"
    using lA(1,2) by (simp del: append_assoc)
  have t2: "take p (drop (2 * p) ((?A @ ?T) @ (?B @ ?T) @ (?C @ ?T))) = ?C @ ?T"
    using lA by (simp del: append_assoc add: mult_2)
  show ?thesis
    by (simp only: grid2vector_def prod sum.case z ok(1) if_True loop' prod.case nat_int t0 t1 t2)
qed

subsection \<open>grid2vector on a grid whose counts match\<close>

lemma int_less_2_31: "(n::nat) < 2 ^ 31 \<Longrightarrow> int n < 2 ^ 31"
  using of_nat_less_iff [of n "2 ^ 31", where ?'a = int] by simp

lemma grid2vector_points:
  assumes "N_g s = (int (length (grid_x s)), int (length (grid_y s)), int (length (grid_z s)))"
    and "length (grid_x s) < 2 ^ 31" and "length (grid_y s) < 2 ^ 31" and "length (grid_z s) < 2 ^ 31"
    and "length (grid_x s) * length (grid_y s) * length (grid_z s) < 2 ^ 31"
  shows "\<exists>s'. grid2vector F s = Inr s' \<and>
           length (grid_x s') = length (grid_x s) * length (grid_y s) * length (grid_z s) \<and>
           length (grid_y s') = length (grid_x s) * length (grid_y s) * length (grid_z s) \<and>
           length (grid_z s') = length (grid_x s) * length (grid_y s) * length (grid_z s) \<and>
           (\<forall>i < length (grid_x s). \<forall>j < length (grid_y s). \<forall>k < length (grid_z s).
              grid_x s' ! (i * length (grid_y s) * length (grid_z s) + j * length (grid_z s) + k) = grid_x s ! i \<and>
              grid_y s' ! (i * length (grid_y s) * length (grid_z s) + j * length (grid_z s) + k) = grid_y s ! j \<and>
              grid_z s' ! (i * length (grid_y s) * length (grid_z s) + j * length (grid_z s) + k) = grid_z s ! k)"
proof -
  let ?xs = "grid_x s" and ?ys = "grid_y s" and ?zs = "grid_z s"
  let ?m = "length ?ys * length ?zs"
  let ?A = "concat (map (replicate ?m) ?xs)"
  let ?B = "concat (map (replicate (length ?zs)) ?ys)"
  let ?C = "concat (replicate (length ?ys) ?zs)"
  let ?s' = "s\<lparr>grid_x := ?A, grid_y := concat (replicate (length ?xs) ?B), grid_z := concat (replicate (length ?xs) ?C)\<rparr>"
  have small: "length ?xs * ?m < 2 ^ 31" using assms(5) by (simp add: mult.assoc)
  have ok: "c_for_ok ?xs" "c_for_ok ?ys" "c_for_ok ?zs"
    using assms(2-4) by (simp_all add: c_for_ok_def int_less_2_31)
  have fits: "in_int64 (int (length ?xs))" "in_int64 (int (length ?ys))" "in_int64 (int (length ?zs))"
    using ok by (simp_all add: in_int64_def c_for_ok_def)
  have i31: "int (length ?xs * ?m) < 2 ^ 31" using small by (rule int_less_2_31)
  have inr: "in_int64 (int (length ?xs * ?m))"
  proof -
    have "(0::int) \<le> int (length ?xs * ?m)" by simp
    moreover have "(2::int) ^ 31 < 2 ^ 63" by simp
    ultimately show ?thesis using i31 unfolding in_int64_def by linarith
  qed
  have "np_product F (np_counts s) (N_g s) =
          Inr (int64_wrap (int (length ?xs) * int (length ?ys) * int (length ?zs)))"
    unfolding assms(1) using fits by (intro np_product_fits) simp
  also have "int (length ?xs) * int (length ?ys) * int (length ?zs) = int (length ?xs * ?m)"
    by (simp add: mult.assoc)
  also have "int64_wrap (int (length ?xs * ?m)) = int (length ?xs * ?m)"
    using inr by (rule int64_wrap_id)
  finally have prod: "np_product F (np_counts s) (N_g s) = Inr (int (length ?xs * ?m))" .
  have z: "24 * int (length ?xs * ?m) < 2 ^ 63"
  proof -
    have "(24::int) * 2 ^ 31 < 2 ^ 63" by simp
    with i31 show ?thesis by linarith
  qed
  have run: "grid2vector F s = Inr ?s'"
    using grid2vector_closed [OF prod z order_refl small ok] by simp
  have lB: "length ?B = ?m" by (simp add: length_concat_map_replicate)
  have lC: "length ?C = ?m" by (simp add: length_concat_replicate)
  have len: "length ?A = length ?xs * ?m" "length (concat (replicate (length ?xs) ?B)) = length ?xs * ?m"
      "length (concat (replicate (length ?xs) ?C)) = length ?xs * ?m"
    by (simp_all add: length_concat_map_replicate length_concat_replicate lB lC)
  have pts: "?A ! (i * length ?ys * length ?zs + j * length ?zs + k) = ?xs ! i \<and>
             concat (replicate (length ?xs) ?B) ! (i * length ?ys * length ?zs + j * length ?zs + k) = ?ys ! j \<and>
             concat (replicate (length ?xs) ?C) ! (i * length ?ys * length ?zs + j * length ?zs + k) = ?zs ! k"
    if i: "i < length ?xs" and j: "j < length ?ys" and k: "k < length ?zs" for i j k
  proof -
    have jk: "j * length ?zs + k < ?m" using j k by (rule index_bound)
    have idx: "i * length ?ys * length ?zs + j * length ?zs + k = i * ?m + (j * length ?zs + k)"
      by (simp add: mult.assoc)
    have a: "?A ! (i * ?m + (j * length ?zs + k)) = ?xs ! i"
      using i jk by (rule nth_concat_map_replicate)
    have b: "concat (replicate (length ?xs) ?B) ! (i * length ?B + (j * length ?zs + k)) = ?B ! (j * length ?zs + k)"
      using i jk by (intro nth_concat_replicate) (simp_all add: lB)
    have b': "?B ! (j * length ?zs + k) = ?ys ! j"
      using j k by (rule nth_concat_map_replicate)
    have c: "concat (replicate (length ?xs) ?C) ! (i * length ?C + (j * length ?zs + k)) = ?C ! (j * length ?zs + k)"
      using i jk by (intro nth_concat_replicate) (simp_all add: lC)
    have c': "?C ! (j * length ?zs + k) = ?zs ! k"
      using j k by (rule nth_concat_replicate)
    show ?thesis
      using a b b' c c' by (simp only: idx lB lC)
  qed
  show ?thesis
  proof (intro exI conjI allI impI)
    show "grid2vector F s = Inr ?s'" by (rule run)
  qed (use len pts in \<open>simp_all add: mult.assoc\<close>)
qed

text \<open>
  Claim C1, within the sizes the code can hold. When the counts in \<open>N_\<close> are the
  lengths of \<open>x\<close>, \<open>y\<close> and \<open>z\<close>, each length is below \<open>2^31\<close> and so is the
  number of points, \<open>grid2vector\<close> returns, the three new arrays have length
  \<open>Nx*Ny*Nz\<close>, and the point at index \<open>i*Ny*Nz + j*Nz + k\<close> is
  \<open>(x[i], y[j], z[k])\<close>: \<open>x\<close> varies slowest and \<open>z\<close> fastest.
\<close>

theorem grid2vector_flatten:
  assumes "N_g s = (int (length (grid_x s)), int (length (grid_y s)), int (length (grid_z s)))"
    and "length (grid_x s) < 2 ^ 31" and "length (grid_y s) < 2 ^ 31" and "length (grid_z s) < 2 ^ 31"
    and "length (grid_x s) * length (grid_y s) * length (grid_z s) < 2 ^ 31"
  shows "\<exists>s'. grid2vector F s = Inr s' \<and>
           length (grid_x s') = length (grid_x s) * length (grid_y s) * length (grid_z s) \<and>
           length (grid_y s') = length (grid_x s) * length (grid_y s) * length (grid_z s) \<and>
           length (grid_z s') = length (grid_x s) * length (grid_y s) * length (grid_z s) \<and>
           (\<forall>i < length (grid_x s). \<forall>j < length (grid_y s). \<forall>k < length (grid_z s).
              grid_x s' ! (i * length (grid_y s) * length (grid_z s) + j * length (grid_z s) + k) = grid_x s ! i \<and>
              grid_y s' ! (i * length (grid_y s) * length (grid_z s) + j * length (grid_z s) + k) = grid_y s ! j \<and>
              grid_z s' ! (i * length (grid_y s) * length (grid_z s) + j * length (grid_z s) + k) = grid_z s ! k)"
  using assms by (rule grid2vector_points)

theorem grid2vector_flatten_witness:
  "N_g grid_2_3_2 = (int (length (grid_x grid_2_3_2)), int (length (grid_y grid_2_3_2)),
                     int (length (grid_z grid_2_3_2))) \<and>
   length (grid_x grid_2_3_2) < 2 ^ 31 \<and> length (grid_y grid_2_3_2) < 2 ^ 31 \<and>
   length (grid_z grid_2_3_2) < 2 ^ 31 \<and>
   length (grid_x grid_2_3_2) * length (grid_y grid_2_3_2) * length (grid_z grid_2_3_2) < 2 ^ 31 \<and>
   (\<exists>s'. grid2vector exact_ops grid_2_3_2 = Inr s' \<and> length (grid_x s') = 12 \<and>
         grid_x s' ! 7 = 2 \<and> grid_y s' ! 7 = 3 \<and> grid_z s' ! 7 = 7)"
proof -
  have h: "N_g grid_2_3_2 = (int (length (grid_x grid_2_3_2)), int (length (grid_y grid_2_3_2)),
                             int (length (grid_z grid_2_3_2)))"
    by (simp add: grid_2_3_2_def)
  have b: "length (grid_x grid_2_3_2) < 2 ^ 31" "length (grid_y grid_2_3_2) < 2 ^ 31"
    "length (grid_z grid_2_3_2) < 2 ^ 31"
    "length (grid_x grid_2_3_2) * length (grid_y grid_2_3_2) * length (grid_z grid_2_3_2) < 2 ^ 31"
    by (simp_all add: grid_2_3_2_def)
  from grid2vector_flatten [OF h b, of exact_ops] obtain s' where
    run: "grid2vector exact_ops grid_2_3_2 = Inr s'" and
    len: "length (grid_x s') = length (grid_x grid_2_3_2) * length (grid_y grid_2_3_2) * length (grid_z grid_2_3_2)" and
    pts: "\<forall>i < length (grid_x grid_2_3_2). \<forall>j < length (grid_y grid_2_3_2). \<forall>k < length (grid_z grid_2_3_2).
            grid_x s' ! (i * length (grid_y grid_2_3_2) * length (grid_z grid_2_3_2) + j * length (grid_z grid_2_3_2) + k) = grid_x grid_2_3_2 ! i \<and>
            grid_y s' ! (i * length (grid_y grid_2_3_2) * length (grid_z grid_2_3_2) + j * length (grid_z grid_2_3_2) + k) = grid_y grid_2_3_2 ! j \<and>
            grid_z s' ! (i * length (grid_y grid_2_3_2) * length (grid_z grid_2_3_2) + j * length (grid_z grid_2_3_2) + k) = grid_z grid_2_3_2 ! k"
    by blast
  from pts [rule_format, of 1 0 1]
  have "grid_x s' ! 7 = 2 \<and> grid_y s' ! 7 = 3 \<and> grid_z s' ! 7 = 7"
    by (simp add: grid_2_3_2_def eval_nat_numeral)
  moreover from len have "length (grid_x s') = 12"
    by (simp add: grid_2_3_2_def)
  ultimately show ?thesis using h b run by blast
qed

text \<open>
  Three axes of \<open>2^21\<close> coordinates with matching counts: the 64-bit product of
  the counts is \<open>-2^63\<close>, \<open>numpy.zeros\<close> refuses the negative dimension, and
  no array is produced.
\<close>

theorem grid2vector_huge_grid_raises:
  "N_g huge_grid = (int (length (grid_x huge_grid)), int (length (grid_y huge_grid)),
                    int (length (grid_z huge_grid))) \<and>
   grid2vector exact_ops huge_grid = Inl ValueError"
proof -
  have n: "N_g huge_grid = (2097152, 2097152, 2097152)" and c: "\<not> np_counts huge_grid"
    by (simp_all add: huge_grid_def initial_state_def)
  have l: "length (grid_x huge_grid) = 2097152" "length (grid_y huge_grid) = 2097152"
    "length (grid_z huge_grid) = 2097152"
    by (simp_all add: huge_grid_def)
  have p: "np_product exact_ops (np_counts huge_grid) (N_g huge_grid) = Inr (- 9223372036854775808)"
    by (simp add: n c np_product_def in_int64_def int64_wrap_def)
  have "grid2vector exact_ops huge_grid = Inl ValueError"
    by (simp add: grid2vector_def p np_zeros_def)
  then show ?thesis by (simp add: n l)
qed

subsection \<open>vector2grid runs the loops of grid2vector\<close>

lemma v2g_loop_k_eq: "v2g_loop_k p xi yj zs st = g2v_loop_k p xi yj zs st"
  by (induction p xi yj zs st rule: g2v_loop_k.induct) simp_all

lemma v2g_loop_j_eq: "v2g_loop_j p xi ys zs st = g2v_loop_j p xi ys zs st"
  by (induction ys arbitrary: st) (simp_all add: v2g_loop_k_eq)

lemma v2g_loop_i_eq: "v2g_loop_i p xs ys zs st = g2v_loop_i p xs ys zs st"
  by (induction xs arbitrary: st) (simp_all add: v2g_loop_j_eq split: sum.splits)

lemma vector2grid_unfold: "vector2grid F s = grid2vector F s"
proof -
  have "v2g_loop_i = (g2v_loop_i :: int \<Rightarrow> 'a list \<Rightarrow> _)"
    by (intro ext) (rule v2g_loop_i_eq)
  then show ?thesis
    unfolding vector2grid_def grid2vector_def by (simp only:)
qed

text \<open>
  Claim C3. \<open>vector2grid\<close> computes what \<open>grid2vector\<close> computes, on every state:
  the two functions, and the loops they run, are equal. It flattens once more and
  recovers no per-axis vectors.
\<close>

theorem vector2grid_is_grid2vector:
  "vector2grid = grid2vector \<and> v2g_loop_i = g2v_loop_i"
  by (intro conjI ext) (simp_all add: vector2grid_unfold v2g_loop_i_eq)

subsection \<open>The length of the flattened arrays\<close>











subsection \<open>grid_init\<close>

















subsection \<open>random_grid\<close>

text \<open>The layout: one block of \<open>N\<close> draws per centre on each axis, and the grid counts as initialized.\<close>

lemma draw_n_length: "length (fst (draw_n normal loc scale n g)) = n"
proof (induction n arbitrary: g)
  case 0
  then show ?case by simp
next
  case (Suc n)
  obtain v g' where d: "normal loc scale g = (v, g')" by (cases "normal loc scale g")
  obtain vs g'' where r: "draw_n normal loc scale n g' = (vs, g'')"
    by (cases "draw_n normal loc scale n g'")
  from Suc.IH [of g'] r have "length vs = n" by simp
  then show ?case by (simp add: d r)
qed

lemma random_dim_length: "length (fst (random_dim F normal locs n g)) = length locs * n"
proof (induction locs arbitrary: g)
  case Nil
  then show ?case by simp
next
  case (Cons loc locs)
  obtain vs g' where d: "draw_n normal loc (f_lit F (1 / 2)) n g = (vs, g')"
    by (cases "draw_n normal loc (f_lit F (1 / 2)) n g")
  obtain ws g'' where r: "random_dim F normal locs n g' = (ws, g'')"
    by (cases "random_dim F normal locs n g'")
  from draw_n_length [of normal loc "f_lit F (1 / 2)" n g] d have "length vs = n" by simp
  moreover from Cons.IH [of g'] r have "length ws = length locs * n" by simp
  ultimately show ?case by (simp add: d r)
qed

lemma random_grid_layout:
  assumes "0 \<le> N"
  shows "\<exists>s' g'. random_grid F normal geo_spec N scale (s, g) = Inr (s', g') \<and>
           length (grid_x s') = length geo_spec * nat N \<and>
           length (grid_y s') = length geo_spec * nat N \<and>
           length (grid_z s') = length geo_spec * nat N \<and> is_initialized s'"
proof -
  obtain xs g1 where x: "random_dim F normal (map fst geo_spec) (nat N) g = (xs, g1)"
    by (cases "random_dim F normal (map fst geo_spec) (nat N) g")
  obtain ys g2 where y: "random_dim F normal (map (\<lambda>c. fst (snd c)) geo_spec) (nat N) g1 = (ys, g2)"
    by (cases "random_dim F normal (map (\<lambda>c. fst (snd c)) geo_spec) (nat N) g1")
  obtain zs g3 where z: "random_dim F normal (map (\<lambda>c. snd (snd c)) geo_spec) (nat N) g2 = (zs, g3)"
    by (cases "random_dim F normal (map (\<lambda>c. snd (snd c)) geo_spec) (nat N) g2")
  from random_dim_length [of F normal "map fst geo_spec" "nat N" g] x
  have lx: "length xs = length geo_spec * nat N" by simp
  from random_dim_length [of F normal "map (\<lambda>c. fst (snd c)) geo_spec" "nat N" g1] y
  have ly: "length ys = length geo_spec * nat N" by simp
  from random_dim_length [of F normal "map (\<lambda>c. snd (snd c)) geo_spec" "nat N" g2] z
  have lz: "length zs = length geo_spec * nat N" by simp
  from assms show ?thesis
    by (simp add: random_grid_def x y z lx ly lz)
qed

lemma random_grid_scale_unused:
  "random_grid F normal geo_spec N scale sg = random_grid F normal geo_spec N scale' sg"
  by (simp add: random_grid_def)

text \<open>
  Claim C5 at one centre, one point per centre and \<open>scale = 2\<close>, with a sampler
  that returns the standard deviation it is called with: every coordinate drawn is
  \<open>1/2\<close>. The call passes the constant \<open>0.5\<close> and not the argument \<open>scale\<close>,
  which the docstring describes as the width of the distribution.
\<close>

theorem random_grid_draws_with_half:
  "random_grid exact_ops (\<lambda>loc scale g. (scale, g)) [(0, 0, 0)] 1 2 (initial_state exact_ops, ()) =
     Inr ((initial_state exact_ops)
            \<lparr>grid_x := [1 / 2], grid_y := [1 / 2], grid_z := [1 / 2], is_initialized := True\<rparr>, ())"
  by (simp add: random_grid_def exact_ops_def initial_state_def)

subsection \<open>center_grid\<close>

lemma center_axis_Inl:
  "center_axis F a d g = Inl e \<longleftrightarrow> e = IndexError \<and> (\<forall>v \<in> set g. \<not> f_le F a v)"
  by (auto simp: center_axis_def Let_def find_None_iff find_Some_iff split: option.splits)

lemma center_axis_Inr:
  assumes "center_axis F a d g = Inr g'"
  shows "length g' = length g \<and> g' \<noteq> [] \<and> (\<exists>v \<in> set g. f_le F a v)"
proof -
  from assms obtain gp where f: "find (\<lambda>v. f_le F a v) g = Some gp"
    and g': "g' = map (\<lambda>v. f_add F v (f_sub F (f_mul F (f_div F (f_of_int F 1) (f_lit F 2)) d) (f_abs F (f_sub F gp a)))) g"
    by (auto simp: center_axis_def Let_def split: option.splits)
  from f have "\<exists>v \<in> set g. f_le F a v"
    by (auto simp: find_Some_iff)
  moreover from this have "g \<noteq> []" by auto
  ultimately show ?thesis using g' by simp
qed

lemma py_min_of_Inr: "g \<noteq> [] \<Longrightarrow> \<exists>m. py_min_of F g = Inr m"
  by (cases g) (simp_all add: py_min_of_def)

lemma py_max_of_Inr: "g \<noteq> [] \<Longrightarrow> \<exists>m. py_max_of F g = Inr m"
  by (cases g) (simp_all add: py_max_of_def)

lemma center_grid_Inr:
  assumes "center_axis F a0 (center_delta F a0 e0) (grid_x s) = Inr g0"
    and "center_axis F a1 (center_delta F a1 e1) (grid_y s) = Inr g1"
    and "center_axis F a2 (center_delta F a2 e2) (grid_z s) = Inr g2"
    and "delta_g s = (e0, e1, e2)"
  shows "\<exists>s'. center_grid F (a0, a1, a2) s = Inr s' \<and>
           grid_x s' = g0 \<and> grid_y s' = g1 \<and> grid_z s' = g2 \<and>
           N_g s' = (int (length g0), int (length g1), int (length g2))"
proof -
  from center_axis_Inr [OF assms(1)] have n0: "g0 \<noteq> []" by simp
  from center_axis_Inr [OF assms(2)] have n1: "g1 \<noteq> []" by simp
  from center_axis_Inr [OF assms(3)] have n2: "g2 \<noteq> []" by simp
  from py_min_of_Inr [OF n0] obtain mn0 where mn0: "py_min_of F g0 = Inr mn0" by blast
  from py_min_of_Inr [OF n1] obtain mn1 where mn1: "py_min_of F g1 = Inr mn1" by blast
  from py_min_of_Inr [OF n2] obtain mn2 where mn2: "py_min_of F g2 = Inr mn2" by blast
  from py_max_of_Inr [OF n0] obtain mx0 where mx0: "py_max_of F g0 = Inr mx0" by blast
  from py_max_of_Inr [OF n1] obtain mx1 where mx1: "py_max_of F g1 = Inr mx1" by blast
  from py_max_of_Inr [OF n2] obtain mx2 where mx2: "py_max_of F g2 = Inr mx2" by blast
  show ?thesis
    by (simp add: center_grid_def Let_def assms mn0 mn1 mn2 mx0 mx1 mx2)
qed

lemma center_grid_Inl:
  assumes "delta_g s = (e0, e1, e2)"
  shows "center_grid F (a0, a1, a2) s = Inl e \<longleftrightarrow>
     e = IndexError \<and>
     ((\<forall>v \<in> set (grid_x s). \<not> f_le F a0 v) \<or> (\<forall>v \<in> set (grid_y s). \<not> f_le F a1 v) \<or>
      (\<forall>v \<in> set (grid_z s). \<not> f_le F a2 v))"
proof (cases "center_axis F a0 (center_delta F a0 e0) (grid_x s)")
  case (Inl e0')
  then show ?thesis
    using center_axis_Inl [of F a0 "center_delta F a0 e0" "grid_x s" e0']
    by (auto simp: center_grid_def Let_def assms)
next
  case x: (Inr g0)
  show ?thesis
  proof (cases "center_axis F a1 (center_delta F a1 e1) (grid_y s)")
    case (Inl e1')
    then show ?thesis
      using center_axis_Inl [of F a1 "center_delta F a1 e1" "grid_y s" e1'] center_axis_Inr [OF x]
      by (auto simp: center_grid_def Let_def assms x)
  next
    case y: (Inr g1)
    show ?thesis
    proof (cases "center_axis F a2 (center_delta F a2 e2) (grid_z s)")
      case (Inl e2')
      then show ?thesis
        using center_axis_Inl [of F a2 "center_delta F a2 e2" "grid_z s" e2']
          center_axis_Inr [OF x] center_axis_Inr [OF y]
        by (auto simp: center_grid_def Let_def assms x y)
    next
      case z: (Inr g2)
      from center_grid_Inr [OF x y z assms] obtain s' where "center_grid F (a0, a1, a2) s = Inr s'"
        by blast
      with center_axis_Inr [OF x] center_axis_Inr [OF y] center_axis_Inr [OF z]
      show ?thesis by auto
    qed
  qed
qed

text \<open>
  Claim C8. \<open>center_grid\<close> raises IndexError exactly when on some axis no
  coordinate is greater than or equal to the anchor's coordinate on that axis (in
  the comparison \<open><=\<close> of doubles); when every axis has such a coordinate it
  returns.
\<close>

theorem center_grid_index_error:
  "(center_grid F ac s = Inl IndexError \<longleftrightarrow>
      (\<exists>i \<in> {0, 1, 2}. \<forall>v \<in> set (get3 i (grid_x s, grid_y s, grid_z s)). \<not> f_le F (get3 i ac) v)) \<and>
   ((\<forall>i \<in> {0, 1, 2}. \<exists>v \<in> set (get3 i (grid_x s, grid_y s, grid_z s)). f_le F (get3 i ac) v) \<longrightarrow>
      (\<exists>s'. center_grid F ac s = Inr s'))"
proof -
  obtain a0 a1 a2 where ac: "ac = (a0, a1, a2)" by (cases ac) auto
  obtain e0 e1 e2 where d: "delta_g s = (e0, e1, e2)" by (cases "delta_g s") auto
  note inl = center_grid_Inl [OF d, of F a0 a1 a2]
  have iff: "center_grid F ac s = Inl IndexError \<longleftrightarrow>
      (\<exists>i \<in> {0, 1, 2}. \<forall>v \<in> set (get3 i (grid_x s, grid_y s, grid_z s)). \<not> f_le F (get3 i ac) v)"
    by (simp add: ac inl)
  have tot: "\<exists>s'. center_grid F ac s = Inr s'"
    if "\<forall>i \<in> {0, 1, 2}. \<exists>v \<in> set (get3 i (grid_x s, grid_y s, grid_z s)). f_le F (get3 i ac) v"
  proof (cases "center_grid F ac s")
    case (Inl e)
    with that show ?thesis by (simp add: ac inl) blast
  next
    case (Inr s')
    then show ?thesis by blast
  qed
  from iff tot show ?thesis by blast
qed

theorem center_grid_index_error_witness:
  "(\<exists>i \<in> {0, 1, 2}. \<forall>v \<in> set (get3 i (grid_x built_grid, grid_y built_grid, grid_z built_grid)).
        \<not> f_le exact_ops (get3 i (2, 0, 0)) v) \<and>
   center_grid exact_ops (2, 0, 0) built_grid = Inl IndexError \<and>
   list_all (\<lambda>i. list_ex (\<lambda>v. f_le exact_ops (get3 i (1, 0, 0)) v)
                    (get3 i (grid_x built_grid, grid_y built_grid, grid_z built_grid))) [0, 1, 2] \<and>
   (\<exists>s'. center_grid exact_ops (1, 0, 0) built_grid = Inr s')"
proof -
  have h1: "\<exists>i \<in> {0, 1, 2}. \<forall>v \<in> set (get3 i (grid_x built_grid, grid_y built_grid, grid_z built_grid)).
        \<not> f_le exact_ops (get3 i (2, 0, 0)) v"
    by (simp add: built_grid_def exact_ops_def)
  have l2: "list_all (\<lambda>i. list_ex (\<lambda>v. f_le exact_ops (get3 i (1, 0, 0)) v)
                    (get3 i (grid_x built_grid, grid_y built_grid, grid_z built_grid))) [0, 1, 2]"
    by (simp add: built_grid_def exact_ops_def)
  then have h2: "\<forall>i \<in> {0, 1, 2}. \<exists>v \<in> set (get3 i (grid_x built_grid, grid_y built_grid, grid_z built_grid)).
        f_le exact_ops (get3 i (1, 0, 0)) v"
    by (simp add: list_ex_iff)
  from h1 center_grid_index_error [of exact_ops "(2, 0, 0)" built_grid]
  have r1: "center_grid exact_ops (2, 0, 0) built_grid = Inl IndexError" by blast
  from h2 center_grid_index_error [of exact_ops "(1, 0, 0)" built_grid]
  have r2: "\<exists>s'. center_grid exact_ops (1, 0, 0) built_grid = Inr s'" by blast
  from h1 l2 r1 r2 show ?thesis by blast
qed

text \<open>
  Claim C10. When \<open>center_grid\<close> returns, \<open>x\<close>, \<open>y\<close> and \<open>z\<close> have the lengths
  they had before the call, and \<open>N_\<close> holds exactly those lengths.
\<close>

theorem center_grid_keeps_point_counts:
  assumes "center_grid F ac s = Inr s'"
  shows "length (grid_x s') = length (grid_x s) \<and> length (grid_y s') = length (grid_y s) \<and>
         length (grid_z s') = length (grid_z s) \<and>
         N_g s' = (int (length (grid_x s)), int (length (grid_y s)), int (length (grid_z s)))"
proof -
  obtain a0 a1 a2 where ac: "ac = (a0, a1, a2)" by (cases ac) auto
  obtain e0 e1 e2 where d: "delta_g s = (e0, e1, e2)" by (cases "delta_g s") auto
  from assms obtain g0 g1 g2 where
    x: "center_axis F a0 (center_delta F a0 e0) (grid_x s) = Inr g0" and
    y: "center_axis F a1 (center_delta F a1 e1) (grid_y s) = Inr g1" and
    z: "center_axis F a2 (center_delta F a2 e2) (grid_z s) = Inr g2"
    by (auto simp: center_grid_def Let_def ac d split: sum.splits)
  from center_grid_Inr [OF x y z d] assms ac
  have "grid_x s' = g0 \<and> grid_y s' = g1 \<and> grid_z s' = g2 \<and>
        N_g s' = (int (length g0), int (length g1), int (length g2))"
    by auto
  with center_axis_Inr [OF x] center_axis_Inr [OF y] center_axis_Inr [OF z]
  show ?thesis by simp
qed

theorem center_grid_keeps_point_counts_witness:
  "center_grid exact_ops (0, 0, 0) built_grid =
     Inr (built_grid\<lparr>grid_x := [- (1 / 2), 1 / 2, 3 / 2],
                     grid_y := [- (3 / 2), - (1 / 2), 1 / 2, 3 / 2, 5 / 2],
                     grid_z := [1 / 2],
                     min_g := (- (1 / 2), - (3 / 2), 1 / 2), max_g := (3 / 2, 5 / 2, 1 / 2),
                     np_bounds := True\<rparr>) \<and>
   N_g (built_grid\<lparr>grid_x := [- (1 / 2), 1 / 2, 3 / 2],
                     grid_y := [- (3 / 2), - (1 / 2), 1 / 2, 3 / 2, 5 / 2],
                     grid_z := [1 / 2],
                     min_g := (- (1 / 2), - (3 / 2), 1 / 2), max_g := (3 / 2, 5 / 2, 1 / 2),
                     np_bounds := True\<rparr>) = (3, 5, 1)"
proof -
  let ?s' = "built_grid\<lparr>grid_x := [- (1 / 2), 1 / 2, 3 / 2],
                     grid_y := [- (3 / 2), - (1 / 2), 1 / 2, 3 / 2, 5 / 2],
                     grid_z := [1 / 2],
                     min_g := (- (1 / 2), - (3 / 2), 1 / 2), max_g := (3 / 2, 5 / 2, 1 / 2),
                     np_bounds := True\<rparr>"
  have run: "center_grid exact_ops (0, 0, 0) built_grid = Inr ?s'"
    by (simp add: center_grid_def center_delta_def center_axis_def py_min_of_def py_max_of_def
          np_product3_def Let_def built_grid_def small_bounds_def initial_state_def exact_ops_def)
  from center_grid_keeps_point_counts [OF run]
  have "N_g ?s' = (int (length (grid_x built_grid)), int (length (grid_y built_grid)), int (length (grid_z built_grid)))"
    by blast
  then have "N_g ?s' = (3, 5, 1)" by (simp add: built_grid_def)
  with run show ?thesis by blast
qed

subsection \<open>read\<close>

lemma read_line_skip: "\<not> kept_line comment l \<Longrightarrow> read_line comment l st = Inr st"
  by (cases st) (auto simp: read_line_def kept_line_def Let_def)

lemma read_line_kept:
  "kept_line comment l \<Longrightarrow>
   read_line comment l (iv, grid, index) =
     (case check (split l) iv of
        Inl e \<Rightarrow> Inl e
      | Inr v \<Rightarrow>
          if v then (case read_tokens 0 (split l) (grid, index) of (grid', index') \<Rightarrow> Inr (Some v, grid', index'))
          else Inr (Some v, set3 (str_find ''xyz'' (lower (hd (split l)))) (tl (split l)) grid, index))"
  by (simp add: read_line_def kept_line_def Let_def)

lemma read_line_vector:
  "kept_line comment l \<Longrightarrow> iv = None \<or> iv = Some True \<Longrightarrow> length (split l) = 3 \<Longrightarrow>
   \<exists>grid' index'. read_line comment l (iv, grid, index) = Inr (Some True, grid', index')"
  by (cases "read_tokens 0 (split l) (grid, index)") (auto simp: read_line_kept check_def)

lemma read_line_regular:
  "kept_line comment l \<Longrightarrow> iv = None \<or> iv = Some False \<Longrightarrow> length (split l) = 4 \<Longrightarrow>
   read_line comment l (iv, grid, index) =
     Inr (Some False, set3 (str_find ''xyz'' (lower (hd (split l)))) (tl (split l)) grid, index)"
  by (auto simp: read_line_kept check_def)

lemma read_line_inconsistent:
  "kept_line comment l \<Longrightarrow>
   (iv = Some True \<and> length (split l) \<noteq> 3) \<or> (iv = Some False \<and> length (split l) \<noteq> 4) \<or>
   (length (split l) \<noteq> 3 \<and> length (split l) \<noteq> 4) \<Longrightarrow>
   read_line comment l (iv, grid, index) = Inl (IOError_Inconsistency (split l))"
  by (auto simp: read_line_kept check_def)

lemma read_lines_vector_then_other:
  "\<exists>l \<in> set lines. kept_line comment l \<and> length (split l) \<noteq> 3 \<Longrightarrow>
   \<exists>cl. read_lines comment lines (Some True, grid, index) = Inl (IOError_Inconsistency cl)"
proof (induction lines arbitrary: grid index)
  case Nil
  then show ?case by simp
next
  case (Cons l rest)
  show ?case
  proof (cases "kept_line comment l")
    case False
    with Cons.prems have "\<exists>l \<in> set rest. kept_line comment l \<and> length (split l) \<noteq> 3" by auto
    from Cons.IH [OF this] False show ?thesis by (simp add: read_line_skip)
  next
    case True
    show ?thesis
    proof (cases "length (split l) = 3")
      case three: True
      with Cons.prems have rest: "\<exists>l \<in> set rest. kept_line comment l \<and> length (split l) \<noteq> 3" by auto
      from read_line_vector [OF True _ three, of "Some True" grid index] obtain grid' index' where
        "read_line comment l (Some True, grid, index) = Inr (Some True, grid', index')" by auto
      with Cons.IH [OF rest, of grid' index'] show ?thesis by simp
    next
      case False
      with True show ?thesis by (simp add: read_line_inconsistent)
    qed
  qed
qed

lemma read_lines_regular_then_other:
  "\<exists>l \<in> set lines. kept_line comment l \<and> length (split l) \<noteq> 4 \<Longrightarrow>
   \<exists>cl. read_lines comment lines (Some False, grid, index) = Inl (IOError_Inconsistency cl)"
proof (induction lines arbitrary: grid index)
  case Nil
  then show ?case by simp
next
  case (Cons l rest)
  show ?case
  proof (cases "kept_line comment l")
    case False
    with Cons.prems have "\<exists>l \<in> set rest. kept_line comment l \<and> length (split l) \<noteq> 4" by auto
    from Cons.IH [OF this] False show ?thesis by (simp add: read_line_skip)
  next
    case True
    show ?thesis
    proof (cases "length (split l) = 4")
      case four: True
      with Cons.prems have rest: "\<exists>l \<in> set rest. kept_line comment l \<and> length (split l) \<noteq> 4" by auto
      from Cons.IH [OF rest] True four show ?thesis by (simp add: read_line_regular)
    next
      case False
      with True show ?thesis by (simp add: read_line_inconsistent)
    qed
  qed
qed

lemma read_lines_mixed:
  "\<exists>l \<in> set lines. kept_line comment l \<and> length (split l) = 3 \<Longrightarrow>
   \<exists>l \<in> set lines. kept_line comment l \<and> length (split l) = 4 \<Longrightarrow>
   \<exists>cl. read_lines comment lines (None, grid, index) = Inl (IOError_Inconsistency cl)"
proof (induction lines arbitrary: grid index)
  case Nil
  then show ?case by simp
next
  case (Cons l rest)
  show ?case
  proof (cases "kept_line comment l")
    case False
    with Cons.prems have "\<exists>l \<in> set rest. kept_line comment l \<and> length (split l) = 3"
      "\<exists>l \<in> set rest. kept_line comment l \<and> length (split l) = 4" by auto
    from Cons.IH [OF this] False show ?thesis by (simp add: read_line_skip)
  next
    case True
    consider "length (split l) = 3" | "length (split l) = 4"
      | "length (split l) \<noteq> 3 \<and> length (split l) \<noteq> 4" by blast
    then show ?thesis
    proof cases
      case 1
      with Cons.prems(2) have rest: "\<exists>l \<in> set rest. kept_line comment l \<and> length (split l) \<noteq> 3" by auto
      from read_line_vector [OF True _ 1, of None grid index] obtain grid' index' where
        "read_line comment l (None, grid, index) = Inr (Some True, grid', index')" by auto
      with read_lines_vector_then_other [OF rest, of grid' index'] show ?thesis by simp
    next
      case 2
      with Cons.prems(1) have rest: "\<exists>l \<in> set rest. kept_line comment l \<and> length (split l) \<noteq> 4" by auto
      from read_lines_regular_then_other [OF rest] True 2 show ?thesis by (simp add: read_line_regular)
    next
      case 3
      with True show ?thesis by (simp add: read_line_inconsistent)
    qed
  qed
qed

lemma read_lines_filter_kept:
  "read_lines comment (filter (kept_line comment) lines) st = read_lines comment lines st"
  by (induction lines arbitrary: st) (simp_all add: read_line_skip split: sum.splits)

text \<open>
  Claim C6. When among the lines that are neither blank nor comments one splits
  into 3 tokens and another into 4, \<open>read\<close> raises the IOError "Inconsistency
  in Grid File". Blank lines and lines whose first token is the comment marker
  never count: the file without them is read with the same result.
\<close>

theorem read_mixed_formats:
  assumes "fs filename = Some lines"
  shows "((\<exists>l \<in> set lines. kept_line comment l \<and> length (split l) = 3) \<and>
          (\<exists>l \<in> set lines. kept_line comment l \<and> length (split l) = 4) \<longrightarrow>
            (\<exists>cl. read F fs filename comment s = Inl (IOError_Inconsistency cl))) \<and>
         read F (fs(filename \<mapsto> filter (kept_line comment) lines)) filename comment s =
           read F fs filename comment s"
proof
  show "(\<exists>l \<in> set lines. kept_line comment l \<and> length (split l) = 3) \<and>
          (\<exists>l \<in> set lines. kept_line comment l \<and> length (split l) = 4) \<longrightarrow>
            (\<exists>cl. read F fs filename comment s = Inl (IOError_Inconsistency cl))"
  proof
    assume a: "(\<exists>l \<in> set lines. kept_line comment l \<and> length (split l) = 3) \<and>
          (\<exists>l \<in> set lines. kept_line comment l \<and> length (split l) = 4)"
    from read_lines_mixed [of lines comment "([], [], [])" "(None, None, None)"] a
    obtain cl where "read_lines comment lines (None, ([], [], []), (None, None, None)) = Inl (IOError_Inconsistency cl)"
      by blast
    then show "\<exists>cl. read F fs filename comment s = Inl (IOError_Inconsistency cl)"
      by (simp add: read_def assms)
  qed
  show "read F (fs(filename \<mapsto> filter (kept_line comment) lines)) filename comment s =
           read F fs filename comment s"
    by (simp add: read_def assms read_lines_filter_kept)
qed


theorem read_mixed_formats_witness:
  "[''grid.txt'' \<mapsto> mixed_file] ''grid.txt'' = Some mixed_file \<and>
   (\<exists>l \<in> set mixed_file. kept_line ''#'' l \<and> length (split l) = 3) \<and>
   (\<exists>l \<in> set mixed_file. kept_line ''#'' l \<and> length (split l) = 4) \<and>
   (\<exists>cl. read exact_ops [''grid.txt'' \<mapsto> mixed_file] ''grid.txt'' ''#'' (initial_state exact_ops) =
      Inl (IOError_Inconsistency cl))"
proof -
  have h: "[''grid.txt'' \<mapsto> mixed_file] ''grid.txt'' = Some mixed_file" by simp
  have m: "(\<exists>l \<in> set mixed_file. kept_line ''#'' l \<and> length (split l) = 3) \<and>
           (\<exists>l \<in> set mixed_file. kept_line ''#'' l \<and> length (split l) = 4)"
    by code_simp
  from read_mixed_formats [of "[''grid.txt'' \<mapsto> mixed_file]" "''grid.txt''" mixed_file
         "''#''" exact_ops "initial_state exact_ops"] h m
  have "\<exists>cl. read exact_ops [''grid.txt'' \<mapsto> mixed_file] ''grid.txt'' ''#'' (initial_state exact_ops) =
      Inl (IOError_Inconsistency cl)" by blast
  with h m show ?thesis by blast
qed

lemma get3_set3:
  "i \<in> {0, 1, 2} \<Longrightarrow> a \<in> {0, 1, 2} \<Longrightarrow> get3 i (set3 a v g) = (if i = a then v else get3 i g)"
  by (cases g) auto

lemma str_find_xyz:
  "str_find ''xyz'' ''x'' = 0" "str_find ''xyz'' ''y'' = 1" "str_find ''xyz'' ''z'' = 2"
  by simp_all

lemma regular_line_tokens:
  assumes "regular_line F l"
  obtains a t1 t2 t3 v1 v2 v3 where "split l = [a, t1, t2, t3]"
    and "lower a = ''x'' \<or> lower a = ''y'' \<or> lower a = ''z''"
    and "f_parse F t1 = Some v1" "f_parse F t2 = Some v2" "f_parse F t3 = Some v3"
  using assms
  by (auto simp: regular_line_def split: list.splits)

lemma regular_line_length: "regular_line F l \<Longrightarrow> length (split l) = 4"
  by (auto simp: regular_line_def split: list.splits)

lemma regular_line_axis:
  assumes "regular_line F l"
  shows "str_find ''xyz'' (lower (hd (split l))) \<in> {0, 1, 2}"
    and "str_find ''xyz'' (lower (hd (split l))) = 0 \<Longrightarrow> lower (hd (split l)) = ''x''"
    and "str_find ''xyz'' (lower (hd (split l))) = 1 \<Longrightarrow> lower (hd (split l)) = ''y''"
    and "str_find ''xyz'' (lower (hd (split l))) = 2 \<Longrightarrow> lower (hd (split l)) = ''z''"
proof -
  from assms obtain a t1 t2 t3 where sp: "split l = [a, t1, t2, t3]"
    and a: "lower a = ''x'' \<or> lower a = ''y'' \<or> lower a = ''z''"
    by (rule regular_line_tokens)
  from a show "str_find ''xyz'' (lower (hd (split l))) \<in> {0, 1, 2}"
    by (auto simp: sp)
  from a show "str_find ''xyz'' (lower (hd (split l))) = 0 \<Longrightarrow> lower (hd (split l)) = ''x''"
    by (auto simp: sp)
  from a show "str_find ''xyz'' (lower (hd (split l))) = 1 \<Longrightarrow> lower (hd (split l)) = ''y''"
    by (auto simp: sp)
  from a show "str_find ''xyz'' (lower (hd (split l))) = 2 \<Longrightarrow> lower (hd (split l)) = ''z''"
    by (auto simp: sp)
qed

lemma regular_line_row:
  assumes "regular_line F l"
  obtains v1 v2 v3 where "map (f_parse F) (tl (split l)) = [Some v1, Some v2, Some v3]"
    and "parse_row F (tl (split l)) = Inr [v1, v2, v3]"
proof -
  from assms obtain a t1 t2 t3 v1 v2 v3 where "split l = [a, t1, t2, t3]"
    "f_parse F t1 = Some v1" "f_parse F t2 = Some v2" "f_parse F t3 = Some v3"
    by (rule regular_line_tokens)
  then have "map (f_parse F) (tl (split l)) = [Some v1, Some v2, Some v3]"
    "parse_row F (tl (split l)) = Inr [v1, v2, v3]" by simp_all
  then show ?thesis by (rule that)
qed

lemma read_lines_regular:
  assumes "\<forall>l \<in> set lines. kept_line comment l \<longrightarrow> regular_line F l"
    and "iv = None \<or> iv = Some False"
  shows "\<exists>grid'. read_lines comment lines (iv, grid, index) =
            Inr (if \<exists>l \<in> set lines. kept_line comment l then Some False else iv, grid', index) \<and>
          (\<forall>i \<in> {0, 1, 2}.
             (get3 i grid' = get3 i grid \<and>
              \<not> (\<exists>l \<in> set lines. kept_line comment l \<and> str_find ''xyz'' (lower (hd (split l))) = i)) \<or>
             (\<exists>l \<in> set lines. kept_line comment l \<and> str_find ''xyz'' (lower (hd (split l))) = i \<and>
                get3 i grid' = tl (split l)))"
  using assms
proof (induction lines arbitrary: iv grid)
  case Nil
  then show ?case by simp
next
  case (Cons l rest)
  from Cons.prems have rest: "\<forall>l \<in> set rest. kept_line comment l \<longrightarrow> regular_line F l" by simp
  show ?case
  proof (cases "kept_line comment l")
    case False
    from Cons.IH [OF rest Cons.prems(2), of grid] obtain grid' where
      run: "read_lines comment rest (iv, grid, index) =
            Inr (if \<exists>l \<in> set rest. kept_line comment l then Some False else iv, grid', index)" and
      rows: "\<forall>i \<in> {0, 1, 2}.
             (get3 i grid' = get3 i grid \<and>
              \<not> (\<exists>l \<in> set rest. kept_line comment l \<and> str_find ''xyz'' (lower (hd (split l))) = i)) \<or>
             (\<exists>l \<in> set rest. kept_line comment l \<and> str_find ''xyz'' (lower (hd (split l))) = i \<and>
                get3 i grid' = tl (split l))"
      by blast
    have "read_lines comment (l # rest) (iv, grid, index) =
            Inr (if \<exists>l \<in> set (l # rest). kept_line comment l then Some False else iv, grid', index)"
      using False run by (simp add: read_line_skip)
    moreover have "\<forall>i \<in> {0, 1, 2}.
             (get3 i grid' = get3 i grid \<and>
              \<not> (\<exists>l \<in> set (l # rest). kept_line comment l \<and> str_find ''xyz'' (lower (hd (split l))) = i)) \<or>
             (\<exists>l \<in> set (l # rest). kept_line comment l \<and> str_find ''xyz'' (lower (hd (split l))) = i \<and>
                get3 i grid' = tl (split l))"
      using False rows by auto
    ultimately show ?thesis by blast
  next
    case True
    with Cons.prems have reg: "regular_line F l" by simp
    let ?a = "str_find ''xyz'' (lower (hd (split l)))"
    let ?g1 = "set3 ?a (tl (split l)) grid"
    have four: "length (split l) = 4" by (rule regular_line_length [OF reg])
    have a: "?a \<in> {0, 1, 2}" by (rule regular_line_axis(1) [OF reg])
    have step: "read_line comment l (iv, grid, index) = Inr (Some False, ?g1, index)"
      using True Cons.prems(2) four by (rule read_line_regular)
    from Cons.IH [OF rest, of "Some False" ?g1] obtain grid' where
      run: "read_lines comment rest (Some False, ?g1, index) =
            Inr (if \<exists>l \<in> set rest. kept_line comment l then Some False else Some False, grid', index)" and
      rows: "\<forall>i \<in> {0, 1, 2}.
             (get3 i grid' = get3 i ?g1 \<and>
              \<not> (\<exists>l \<in> set rest. kept_line comment l \<and> str_find ''xyz'' (lower (hd (split l))) = i)) \<or>
             (\<exists>l \<in> set rest. kept_line comment l \<and> str_find ''xyz'' (lower (hd (split l))) = i \<and>
                get3 i grid' = tl (split l))"
      by blast
    have r: "read_lines comment (l # rest) (iv, grid, index) =
            Inr (if \<exists>l \<in> set (l # rest). kept_line comment l then Some False else iv, grid', index)"
      using True step run by simp
    have "(get3 i grid' = get3 i grid \<and>
              \<not> (\<exists>l \<in> set (l # rest). kept_line comment l \<and> str_find ''xyz'' (lower (hd (split l))) = i)) \<or>
             (\<exists>l \<in> set (l # rest). kept_line comment l \<and> str_find ''xyz'' (lower (hd (split l))) = i \<and>
                get3 i grid' = tl (split l))" if i: "i \<in> {0, 1, 2}" for i
    proof -
      from rows i consider
        (same) "get3 i grid' = get3 i ?g1"
          "\<not> (\<exists>l \<in> set rest. kept_line comment l \<and> str_find ''xyz'' (lower (hd (split l))) = i)"
        | (later) "\<exists>l \<in> set rest. kept_line comment l \<and> str_find ''xyz'' (lower (hd (split l))) = i \<and>
                get3 i grid' = tl (split l)"
        by blast
      then show ?thesis
      proof cases
        case same
        show ?thesis
        proof (cases "i = ?a")
          case True
          with same(1) i a have "get3 i grid' = tl (split l)" by (simp add: get3_set3)
          with True \<open>kept_line comment l\<close> show ?thesis by auto
        next
          case False
          with same(1) i a have "get3 i grid' = get3 i grid" by (simp add: get3_set3)
          with False same(2) show ?thesis by auto
        qed
      next
        case later
        then show ?thesis by auto
      qed
    qed
    with r show ?thesis by blast
  qed
qed


text \<open>
  Claim C7. For a file in the regular format (every line that counts is
  \<open><axis-letter> <min> <max> <count>\<close>, and each of the three axes has a line)
  \<open>read\<close> returns \<open>False\<close>. It leaves \<open>x\<close>, \<open>y\<close>, \<open>z\<close>, \<open>is_initialized\<close>,
  \<open>delta_\<close> and \<open>d3r\<close> as they were, so a grid that was not initialized is not
  initialized afterwards, and it takes \<open>min_\<close>, \<open>max_\<close> and \<open>N_\<close> from a line of
  each axis.
\<close>

theorem read_regular_format:
  assumes "fs filename = Some lines"
    and "\<forall>l \<in> set lines. kept_line comment l \<longrightarrow> regular_line F l"
    and "\<forall>a \<in> {''x'', ''y'', ''z''}. \<exists>l \<in> set lines. kept_line comment l \<and> lower (hd (split l)) = a"
  shows "\<exists>s'. read F fs filename comment s = Inr (s', Some False) \<and>
           grid_x s' = grid_x s \<and> grid_y s' = grid_y s \<and> grid_z s' = grid_z s \<and>
           is_initialized s' = is_initialized s \<and> delta_g s' = delta_g s \<and> d3r s' = d3r s \<and>
           (\<exists>lx \<in> set lines. \<exists>ly \<in> set lines. \<exists>lz \<in> set lines.
              \<exists>mn0 mx0 c0 mn1 mx1 c1 mn2 mx2 c2.
                kept_line comment lx \<and> lower (hd (split lx)) = ''x'' \<and>
                map (f_parse F) (tl (split lx)) = [Some mn0, Some mx0, Some c0] \<and>
                kept_line comment ly \<and> lower (hd (split ly)) = ''y'' \<and>
                map (f_parse F) (tl (split ly)) = [Some mn1, Some mx1, Some c1] \<and>
                kept_line comment lz \<and> lower (hd (split lz)) = ''z'' \<and>
                map (f_parse F) (tl (split lz)) = [Some mn2, Some mx2, Some c2] \<and>
                min_g s' = (mn0, mn1, mn2) \<and> max_g s' = (mx0, mx1, mx2) \<and>
                N_g s' = (f_trunc F c0, f_trunc F c1, f_trunc F c2))"
proof -
  let ?axis = "\<lambda>l. str_find ''xyz'' (lower (hd (split l)))"
  from assms(3) have some: "\<exists>l \<in> set lines. kept_line comment l" by blast
  from read_lines_regular [OF assms(2), of None "([], [], [])" "(None, None, None)"]
  obtain grid' where
    run0: "read_lines comment lines (None, ([], [], []), (None, None, None)) =
            Inr (if \<exists>l \<in> set lines. kept_line comment l then Some False else None, grid', (None, None, None))" and
    rows: "\<forall>i \<in> {0, 1, 2}.
             (get3 i grid' = get3 i ([], [], []) \<and>
              \<not> (\<exists>l \<in> set lines. kept_line comment l \<and> ?axis l = i)) \<or>
             (\<exists>l \<in> set lines. kept_line comment l \<and> ?axis l = i \<and> get3 i grid' = tl (split l))"
    by blast
  from run0 some have
    run: "read_lines comment lines (None, ([], [], []), (None, None, None)) =
            Inr (Some False, grid', (None, None, None))"
    by (simp only: if_True)
  have letter: "\<exists>l \<in> set lines. kept_line comment l \<and> lower (hd (split l)) = a \<and>
                  regular_line F l \<and> get3 i grid' = tl (split l)"
    if "i \<in> {0, 1, 2}" and "str_find ''xyz'' a = i" and "a \<in> {''x'', ''y'', ''z''}"
      and inj: "\<And>l. regular_line F l \<Longrightarrow> ?axis l = i \<Longrightarrow> lower (hd (split l)) = a" for i a
  proof -
    from assms(3) that(3) obtain l0 where "l0 \<in> set lines" "kept_line comment l0" "lower (hd (split l0)) = a"
      by blast
    with that(2) have "\<exists>l \<in> set lines. kept_line comment l \<and> ?axis l = i" by auto
    with rows that(1) obtain l where l: "l \<in> set lines" "kept_line comment l" "?axis l = i"
      "get3 i grid' = tl (split l)" by blast
    from l assms(2) have reg: "regular_line F l" by blast
    from inj [OF reg l(3)] l reg show ?thesis by blast
  qed
  have "\<exists>l \<in> set lines. kept_line comment l \<and> lower (hd (split l)) = ''x'' \<and>
          regular_line F l \<and> get3 0 grid' = tl (split l)"
  proof (rule letter)
    show "lower (hd (split l)) = ''x''"
      if "regular_line F l" and "str_find ''xyz'' (lower (hd (split l))) = 0" for l
      using that by (rule regular_line_axis(2))
  qed simp_all
  then obtain lx where lx: "lx \<in> set lines" "kept_line comment lx" "lower (hd (split lx)) = ''x''"
    "regular_line F lx" "get3 0 grid' = tl (split lx)" by blast
  have "\<exists>l \<in> set lines. kept_line comment l \<and> lower (hd (split l)) = ''y'' \<and>
          regular_line F l \<and> get3 1 grid' = tl (split l)"
  proof (rule letter)
    show "lower (hd (split l)) = ''y''"
      if "regular_line F l" and "str_find ''xyz'' (lower (hd (split l))) = 1" for l
      using that by (rule regular_line_axis(3))
  qed simp_all
  then obtain ly where ly: "ly \<in> set lines" "kept_line comment ly" "lower (hd (split ly)) = ''y''"
    "regular_line F ly" "get3 1 grid' = tl (split ly)" by blast
  have "\<exists>l \<in> set lines. kept_line comment l \<and> lower (hd (split l)) = ''z'' \<and>
          regular_line F l \<and> get3 2 grid' = tl (split l)"
  proof (rule letter)
    show "lower (hd (split l)) = ''z''"
      if "regular_line F l" and "str_find ''xyz'' (lower (hd (split l))) = 2" for l
      using that by (rule regular_line_axis(4))
  qed simp_all
  then obtain lz where lz: "lz \<in> set lines" "kept_line comment lz" "lower (hd (split lz)) = ''z''"
    "regular_line F lz" "get3 2 grid' = tl (split lz)" by blast
  obtain mn0 mx0 c0 where
    px: "map (f_parse F) (tl (split lx)) = [Some mn0, Some mx0, Some c0]"
        "parse_row F (tl (split lx)) = Inr [mn0, mx0, c0]"
    by (rule regular_line_row [OF lx(4)])
  obtain mn1 mx1 c1 where
    py: "map (f_parse F) (tl (split ly)) = [Some mn1, Some mx1, Some c1]"
        "parse_row F (tl (split ly)) = Inr [mn1, mx1, c1]"
    by (rule regular_line_row [OF ly(4)])
  obtain mn2 mx2 c2 where
    pz: "map (f_parse F) (tl (split lz)) = [Some mn2, Some mx2, Some c2]"
        "parse_row F (tl (split lz)) = Inr [mn2, mx2, c2]"
    by (rule regular_line_row [OF lz(4)])
  have grid': "grid' = (tl (split lx), tl (split ly), tl (split lz))"
    using lx(5) ly(5) lz(5) by (cases grid') simp
  have len: "length (split lx) = 4" "length (split ly) = 4" "length (split lz) = 4"
    by (rule regular_line_length [OF lx(4)], rule regular_line_length [OF ly(4)],
        rule regular_line_length [OF lz(4)])
  have arr: "np_array_float F grid' = Inr ([mn0, mx0, c0], [mn1, mx1, c1], [mn2, mx2, c2])"
    by (simp add: np_array_float_def grid' len px(2) py(2) pz(2))
  let ?s' = "s\<lparr>min_g := (mn0, mn1, mn2), max_g := (mx0, mx1, mx2),
               N_g := (f_trunc F c0, f_trunc F c1, f_trunc F c2), np_bounds := True, np_counts := True\<rparr>"
  have res: "read F fs filename comment s = Inr (?s', Some False)"
    by (simp add: read_def assms(1) run arr)
  have sel: "min_g ?s' = (mn0, mn1, mn2)" "max_g ?s' = (mx0, mx1, mx2)"
    "N_g ?s' = (f_trunc F c0, f_trunc F c1, f_trunc F c2)"
    by simp_all
  have vals: "kept_line comment lx \<and> lower (hd (split lx)) = ''x'' \<and>
                map (f_parse F) (tl (split lx)) = [Some mn0, Some mx0, Some c0] \<and>
                kept_line comment ly \<and> lower (hd (split ly)) = ''y'' \<and>
                map (f_parse F) (tl (split ly)) = [Some mn1, Some mx1, Some c1] \<and>
                kept_line comment lz \<and> lower (hd (split lz)) = ''z'' \<and>
                map (f_parse F) (tl (split lz)) = [Some mn2, Some mx2, Some c2] \<and>
                min_g ?s' = (mn0, mn1, mn2) \<and> max_g ?s' = (mx0, mx1, mx2) \<and>
                N_g ?s' = (f_trunc F c0, f_trunc F c1, f_trunc F c2)"
    by (intro conjI) (fact lx(2) lx(3) px(1) ly(2) ly(3) py(1) lz(2) lz(3) pz(1) sel)+
  have from_file: "\<exists>lx \<in> set lines. \<exists>ly \<in> set lines. \<exists>lz \<in> set lines.
              \<exists>mn0 mx0 c0 mn1 mx1 c1 mn2 mx2 c2.
                kept_line comment lx \<and> lower (hd (split lx)) = ''x'' \<and>
                map (f_parse F) (tl (split lx)) = [Some mn0, Some mx0, Some c0] \<and>
                kept_line comment ly \<and> lower (hd (split ly)) = ''y'' \<and>
                map (f_parse F) (tl (split ly)) = [Some mn1, Some mx1, Some c1] \<and>
                kept_line comment lz \<and> lower (hd (split lz)) = ''z'' \<and>
                map (f_parse F) (tl (split lz)) = [Some mn2, Some mx2, Some c2] \<and>
                min_g ?s' = (mn0, mn1, mn2) \<and> max_g ?s' = (mx0, mx1, mx2) \<and>
                N_g ?s' = (f_trunc F c0, f_trunc F c1, f_trunc F c2)"
    by (rule bexI [OF _ lx(1)], rule bexI [OF _ ly(1)], rule bexI [OF _ lz(1)], (rule exI)+, rule vals)
  have frame: "grid_x ?s' = grid_x s" "grid_y ?s' = grid_y s" "grid_z ?s' = grid_z s"
    "is_initialized ?s' = is_initialized s" "delta_g ?s' = delta_g s" "d3r ?s' = d3r s"
    by simp_all
  show ?thesis
    by (rule exI [of _ ?s'], intro conjI) (fact res frame from_file)+
qed

theorem read_regular_format_witness:
  "[''grid.txt'' \<mapsto> regular_file] ''grid.txt'' = Some regular_file \<and>
   list_all (\<lambda>l. \<not> kept_line ''#'' l \<or> regular_line exact_ops l) regular_file \<and>
   list_all (\<lambda>a. list_ex (\<lambda>l. kept_line ''#'' l \<and> lower (hd (split l)) = a) regular_file)
     [''x'', ''y'', ''z''] \<and>
   (\<exists>s'. read exact_ops [''grid.txt'' \<mapsto> regular_file] ''grid.txt'' ''#'' (initial_state exact_ops) =
            Inr (s', Some False) \<and>
          grid_x s' = [0] \<and> \<not> is_initialized s')"
proof -
  have h1: "[''grid.txt'' \<mapsto> regular_file] ''grid.txt'' = Some regular_file" by simp
  have l2: "list_all (\<lambda>l. \<not> kept_line ''#'' l \<or> regular_line exact_ops l) regular_file"
    by code_simp
  have l3: "list_all (\<lambda>a. list_ex (\<lambda>l. kept_line ''#'' l \<and> lower (hd (split l)) = a) regular_file)
     [''x'', ''y'', ''z'']"
    by code_simp
  from l2 have h2: "\<forall>l \<in> set regular_file. kept_line ''#'' l \<longrightarrow> regular_line exact_ops l"
    by (auto simp: list_all_iff)
  from l3 have h3: "\<forall>a \<in> {''x'', ''y'', ''z''}. \<exists>l \<in> set regular_file. kept_line ''#'' l \<and> lower (hd (split l)) = a"
    by (simp add: list_ex_iff)
  from read_regular_format [of "[''grid.txt'' \<mapsto> regular_file]" "''grid.txt''" regular_file
         "''#''" exact_ops "initial_state exact_ops"] h1 h2 h3 obtain s' where
    "read exact_ops [''grid.txt'' \<mapsto> regular_file] ''grid.txt'' ''#'' (initial_state exact_ops) = Inr (s', Some False)"
    "grid_x s' = grid_x (initial_state exact_ops)" "is_initialized s' = is_initialized (initial_state exact_ops)"
    by blast
  then have "\<exists>s'. read exact_ops [''grid.txt'' \<mapsto> regular_file] ''grid.txt'' ''#'' (initial_state exact_ops) =
            Inr (s', Some False) \<and> grid_x s' = [0] \<and> \<not> is_initialized s'"
    by (auto simp: initial_state_def exact_ops_def)
  with h1 l2 l3 show ?thesis by blast
qed

end
